theory Spec2Isabelle
  imports Main
begin

section \<open>The login page component (src/pages/user/login.vue)\<close>

text \<open>
  The component is a set of mutable variables (the \<open>$ref\<close> and \<open>ref\<close> bindings and the
  two timer handles of the script block), handlers that read and write them, and three
  kinds of callbacks that run later: timer callbacks, continuations of the \<open>async\<close>
  handlers after their \<open>await\<close>, and the lifecycle hooks. The embedding keeps the
  variables in a record, passes it through every handler, and makes the browser explicit:
  a table of the timers that are armed, the list of awaited calls that have not settled,
  and a log of the calls the component made to its collaborators (toast, console,
  validators, auth store, API).
\<close>

subsection \<open>Data\<close>

datatype mode = Login | Register | Forgot

datatype login_type = Code | Password

text \<open>The second argument of \<open>sendVerificationCode\<close>:
  \<open>'login' | 'register' | 'reset_password'\<close>.\<close>

datatype code_purpose = ForLogin | ForRegister | ForResetPassword

datatype auth_type = EmailType | PhoneType

record login_form =
  lf_account :: string
  lf_password :: string

record phone_login_form =
  pf_phone :: string
  pf_code :: string

record register_form =
  rf_phone :: string
  rf_password :: string
  rf_confirmPassword :: string
  rf_code :: string

record forgot_form =
  ff_phone :: string
  ff_code :: string
  ff_newPassword :: string
  ff_confirmPassword :: string

text \<open>
  The three error variables are Vue refs, \<open>ref<Record<string, string>>({})\<close>
  (lines 64 to 66). A ref is a wrapper object: the record lives behind its \<open>value\<close>
  accessor, which is what the template reads (a top-level ref is unwrapped there, so
  \<open>loginErrors.phone\<close> in the template is \<open>loginErrors.value.phone\<close>) and what
  \<open>clearErrors\<close> writes. Like every JavaScript object the wrapper can also be given
  properties of its own. A write to \<open>value\<close> stores whatever it is given, so the
  content is either a record or, after a string has been stored, a string.
\<close>

datatype ref_content = Rec "string \<rightharpoonup> string" | Txt string

record errors_ref =
  ref_value :: ref_content
  own_props :: "string \<rightharpoonup> string"

text \<open>What the template shows for \<open>errors.k\<close>: the entry of the record behind
  \<open>value\<close>; a string has none of the field names as a property.\<close>

definition shown_error :: "errors_ref \<Rightarrow> string \<Rightarrow> string option" where
  "shown_error r k = (case ref_value r of Rec m \<Rightarrow> m k | Txt s \<Rightarrow> None)"

text \<open>
  \<open>Object.assign(target, source)\<close> on a ref: each own enumerable property of the
  source, in order, is written to the wrapper with an ordinary property write. Vue's ref
  object keeps its content in the field \<open>_value\<close>, which the \<open>value\<close> accessor returns,
  so a write to the key \<open>value\<close> (through the accessor) or to the key \<open>_value\<close> (to the
  field) replaces the content with the string written. Any other key becomes a property
  of the wrapper; the wrapper's other fields (\<open>_rawValue\<close>, \<open>dep\<close>, \<open>__v_isRef\<close>,
  \<open>__v_isShallow\<close>) are not told apart from properties added later.
\<close>

definition assign_prop :: "string \<times> string \<Rightarrow> errors_ref \<Rightarrow> errors_ref" where
  "assign_prop kv r =
     (if fst kv = ''value'' \<or> fst kv = ''_value'' then r\<lparr>ref_value := Txt (snd kv)\<rparr>
      else r\<lparr>own_props := (own_props r)(fst kv \<mapsto> snd kv)\<rparr>)"

definition Object_assign :: "errors_ref \<Rightarrow> (string \<times> string) list \<Rightarrow> errors_ref" where
  "Object_assign r src = fold assign_prop src r"

text \<open>Timer handles are the positive integers the browser hands out; \<open>null\<close> is
  \<open>None\<close>.\<close>

type_synonym handle = nat

record component =
  currentMode :: mode
  loginType :: login_type
  isLoading :: bool
  isSendingCode :: bool
  codeCountdown :: int
  showWechatQR :: bool
  wechatQRUrl :: string
  qrExpired :: bool
  qrScanned :: bool
  qrExpireTimer :: "handle option"
  qrCheckInterval :: "handle option"
  showLoginPassword :: bool
  showRegisterPassword :: bool
  showRegisterConfirmPassword :: bool
  showForgotPassword :: bool
  showForgotConfirmPassword :: bool
  loginForm :: login_form
  phoneLoginForm :: phone_login_form
  registerForm :: register_form
  forgotForm :: forgot_form
  loginErrors :: errors_ref
  registerErrors :: errors_ref
  forgotErrors :: errors_ref

subsection \<open>Collaborators\<close>

text \<open>The objects handed to the validators and to the auth store; a property that is
  \<open>undefined\<close> or left out is \<open>None\<close>.\<close>

record login_payload =
  lp_email :: "string option"
  lp_phone :: "string option"
  lp_password :: "string option"
  lp_code :: "string option"
  lp_type :: auth_type

record register_payload =
  rp_phone :: string
  rp_password :: string
  rp_code :: string
  rp_nickname :: "string option"
  rp_email :: "string option"

record reset_payload =
  sp_phone :: string
  sp_email :: "string option"
  sp_code :: string
  sp_newPassword :: string

text \<open>A validator returns \<open>{isValid, errors}\<close>; the errors are kept as the ordered list
  of the object's own properties.\<close>

record validation =
  isValid :: bool
  errors :: "(string \<times> string) list"

text \<open>The answer of an API or store call: \<open>{success, msg}\<close>, the message optional.\<close>

record response =
  success :: bool
  msg :: "string option"

type_synonym exn = string

text \<open>How an awaited call settles.\<close>

datatype outcome = Resolved response | Rejected exn

text \<open>How a handler ends: it returns, or an exception leaves it (for an \<open>async\<close>
  handler: its promise is rejected).\<close>

datatype completion = Returned | Threw exn

text \<open>
  The configuration and the validators are imported from modules outside this file
  (\<open>@/config/auth.ts\<close>, \<open>@/utils/validation.ts\<close>); they are parameters of the model.
\<close>

record env =
  phoneRegex_test :: "string \<Rightarrow> bool"
  sendInterval :: int
  validateLoginForm :: "login_payload \<Rightarrow> validation"
  validateRegisterForm :: "register_payload \<Rightarrow> validation"
  validateResetPasswordForm :: "reset_payload \<Rightarrow> validation"

text \<open>
  The user-visible messages are string literals of the source, in Chinese. Each literal
  is a constructor here, named by its meaning, with the line it stands on:
  \<^item> \<open>EnterPhone\<close> (71), \<open>EnterValidPhone\<close> (76), \<open>CodeSent\<close> (85),
    \<open>SendFailed\<close> (94, the fallback), \<open>SendCodeFailed\<close> (98);
  \<^item> \<open>PasswordMismatch\<close> (163, 197), \<open>ResetDone\<close> (223), \<open>ResetFailed\<close> (226, the
    fallback);
  \<^item> \<open>QRExpiredRefresh\<close> (288), \<open>WechatLoginFailed\<close> (293), \<open>LoginFirst\<close> (347);
  \<^item> \<open>ServerMsg m\<close> is a message taken from a response.
\<close>

datatype message =
    EnterPhone | EnterValidPhone | CodeSent | SendFailed | SendCodeFailed
  | PasswordMismatch | ResetDone | ResetFailed
  | QRExpiredRefresh | WechatLoginFailed | LoginFirst
  | ServerMsg string

datatype toast_kind = ToastSuccess | ToastError | ToastInfo

text \<open>What the component does to the outside, in the order it does it. The last entry
  records that an exception left a handler; the component handles it nowhere.\<close>

datatype effect =
    Toast toast_kind message
  | ConsoleError string exn
  | CallValidateLogin login_payload
  | CallValidateRegister register_payload
  | CallValidateReset reset_payload
  | CallSendCode string code_purpose
  | CallLogin login_payload
  | CallRegister register_payload
  | CallResetPassword reset_payload
  | HandlerThrew exn

text \<open>The calls that go to the network: the auth store's methods and the send-code
  API.\<close>

fun is_auth_call :: "effect \<Rightarrow> bool" where
  "is_auth_call (CallLogin p) = True"
| "is_auth_call (CallRegister p) = True"
| "is_auth_call (CallResetPassword p) = True"
| "is_auth_call e = False"

fun is_network_call :: "effect \<Rightarrow> bool" where
  "is_network_call (CallSendCode p t) = True"
| "is_network_call e = is_auth_call e"

subsection \<open>Timers and awaited calls\<close>

datatype timer_api = Timeout | Interval

text \<open>The three callbacks the file registers: the poll of line 268, the expiry of line
  283, the countdown tick of line 87.\<close>

datatype timer_cb = QRPoll | QRExpire | Countdown

record timer =
  tid :: handle
  api :: timer_api
  callback :: timer_cb
  delay :: nat

text \<open>The continuation of each \<open>async\<close> handler after its \<open>await\<close>.\<close>

datatype cont = SendCodeK | LoginK | PhoneCodeLoginK | RegisterK | ForgotPasswordK

record world =
  comp :: component
  timers :: "timer list"
  next_timer :: handle
  pending :: "cont list"
  effects :: "effect list"

definition emit :: "effect \<Rightarrow> world \<Rightarrow> world" where
  "emit e w = w\<lparr>effects := effects w @ [e]\<rparr>"

text \<open>\<open>setTimeout\<close> and \<open>setInterval\<close> draw their handles from one counter and arm
  a timer; \<open>clearTimeout\<close> and \<open>clearInterval\<close> disarm the timer with that handle, and
  do nothing for a handle that is not armed.\<close>

definition set_timer :: "timer_api \<Rightarrow> timer_cb \<Rightarrow> nat \<Rightarrow> world \<Rightarrow> handle \<times> world" where
  "set_timer a cb d w =
     (next_timer w,
      w\<lparr>timers := timers w @ [\<lparr>tid = next_timer w, api = a, callback = cb, delay = d\<rparr>],
        next_timer := Suc (next_timer w)\<rparr>)"

definition clear_timer :: "handle \<Rightarrow> world \<Rightarrow> world" where
  "clear_timer h w = w\<lparr>timers := filter (\<lambda>t. tid t \<noteq> h) (timers w)\<rparr>"

text \<open>The handles of the armed timers that run a given callback.\<close>

definition armed :: "timer_cb \<Rightarrow> world \<Rightarrow> handle list" where
  "armed cb w = map tid (filter (\<lambda>t. callback t = cb) (timers w))"

definition QR_EXPIRE_TIME :: nat where
  "QR_EXPIRE_TIME = 5 * 60 * 1000"

definition placeholderQR :: string where
  "placeholderQR = ''data:image/svg+xml;base64,PHN2ZyB3aWR0aD0iMjAwIiBoZWlnaHQ9IjIwMCIgeG1sbnM9Imh0dHA6Ly93d3cudzMub3JnLzIwMDAvc3ZnIj4KICA8cmVjdCB3aWR0aD0iMjAwIiBoZWlnaHQ9IjIwMCIgZmlsbD0iI2Y1ZjVmNSIvPgogIDx0ZXh0IHg9IjUwJSIgeT0iNTAlIiB0ZXh0LWFuY2hvcj0ibWlkZGxlIiBkeT0iLjNlbSIgZm9udC1zaXplPSIxNCIgZmlsbD0iIzk5OTk5OSI+55So5o6l566h55CG6L295Lit6K+B77yBPC90ZXh0Pgo8L3N2Zz4K''"

subsection \<open>The initial state (lines 18 to 66)\<close>

definition empty_ref :: errors_ref where
  "empty_ref = \<lparr>ref_value = Rec Map.empty, own_props = Map.empty\<rparr>"

definition init_component :: component where
  "init_component =
     \<lparr>currentMode = Login, loginType = Code, isLoading = False, isSendingCode = False,
      codeCountdown = 0, showWechatQR = True, wechatQRUrl = '''', qrExpired = False,
      qrScanned = True, qrExpireTimer = None, qrCheckInterval = None,
      showLoginPassword = False, showRegisterPassword = False,
      showRegisterConfirmPassword = False, showForgotPassword = False,
      showForgotConfirmPassword = False,
      loginForm = \<lparr>lf_account = '''', lf_password = ''''\<rparr>,
      phoneLoginForm = \<lparr>pf_phone = '''', pf_code = ''''\<rparr>,
      registerForm = \<lparr>rf_phone = '''', rf_password = '''', rf_confirmPassword = '''',
        rf_code = ''''\<rparr>,
      forgotForm = \<lparr>ff_phone = '''', ff_code = '''', ff_newPassword = '''',
        ff_confirmPassword = ''''\<rparr>,
      loginErrors = empty_ref, registerErrors = empty_ref, forgotErrors = empty_ref\<rparr>"

definition init :: world where
  "init = \<lparr>comp = init_component, timers = [], next_timer = 1, pending = [], effects = []\<rparr>"

subsection \<open>Small steps shared by the handlers\<close>

definition upd :: "(component \<Rightarrow> component) \<Rightarrow> world \<Rightarrow> world" where
  "upd f w = w\<lparr>comp := f (comp w)\<rparr>"

text \<open>Reaching an \<open>await\<close>: the rest of the handler is parked until the call settles.\<close>

definition await :: "cont \<Rightarrow> world \<Rightarrow> world" where
  "await k w = w\<lparr>pending := pending w @ [k]\<rparr>"

text \<open>\<open>response.msg || fallback\<close>: a missing or empty message is falsy.\<close>

definition msg_or :: "string option \<Rightarrow> message \<Rightarrow> message" where
  "msg_or m fallback =
     (case m of None \<Rightarrow> fallback | Some s \<Rightarrow> if s = [] then fallback else ServerMsg s)"

subsection \<open>sendVerificationCode (lines 69 to 102)\<close>

text \<open>Up to the \<open>await\<close> of line 82.\<close>

definition sendVerificationCode :: "env \<Rightarrow> string \<Rightarrow> code_purpose \<Rightarrow> world \<Rightarrow> world" where
  "sendVerificationCode E phone ty w =
     (if phone = [] then emit (Toast ToastError EnterPhone) w
      else if \<not> phoneRegex_test E phone then emit (Toast ToastError EnterValidPhone) w
      else await SendCodeK
             (emit (CallSendCode phone ty) (upd (\<lambda>c. c\<lparr>isSendingCode := True\<rparr>) w)))"

text \<open>From the \<open>await\<close> on: the \<open>try\<close> body, the \<open>catch\<close> and the \<open>finally\<close>.\<close>

definition sendVerificationCode_resume :: "env \<Rightarrow> outcome \<Rightarrow> world \<Rightarrow> completion \<times> world" where
  "sendVerificationCode_resume E out w =
     (let w1 =
        (case out of
           Resolved r \<Rightarrow>
             if success r then
               (let w2 = emit (Toast ToastSuccess CodeSent) w;
                    w3 = upd (\<lambda>c. c\<lparr>codeCountdown := sendInterval E\<rparr>) w2
                in snd (set_timer Interval Countdown 1000 w3))
             else emit (Toast ToastError (msg_or (msg r) SendFailed)) w
         | Rejected e \<Rightarrow>
             emit (Toast ToastError SendCodeFailed) (emit (ConsoleError ''Send code error:'' e) w))
      in (Returned, upd (\<lambda>c. c\<lparr>isSendingCode := False\<rparr>) w1))"

text \<open>The interval callback of line 87; \<open>h\<close> is the handle the callback closes over
  (\<open>timer\<close>), its own.\<close>

definition countdown_tick :: "handle \<Rightarrow> world \<Rightarrow> world" where
  "countdown_tick h w =
     (let w1 = upd (\<lambda>c. c\<lparr>codeCountdown := codeCountdown c - 1\<rparr>) w
      in if codeCountdown (comp w1) \<le> 0 then clear_timer h w1 else w1)"

subsection \<open>The QR panel (lines 233 to 295)\<close>

text \<open>\<open>if (qrExpireTimer)\<close> and \<open>if (qrCheckInterval)\<close> test a handle variable:
  \<open>null\<close> and \<open>0\<close> are falsy.\<close>

definition clearQRTimers :: "world \<Rightarrow> world" where
  "clearQRTimers w =
     (let w1 =
        (case qrExpireTimer (comp w) of
           None \<Rightarrow> w
         | Some h \<Rightarrow>
             if h \<noteq> 0 then upd (\<lambda>c. c\<lparr>qrExpireTimer := None\<rparr>) (clear_timer h w) else w)
      in case qrCheckInterval (comp w1) of
           None \<Rightarrow> w1
         | Some h \<Rightarrow>
             if h \<noteq> 0 then upd (\<lambda>c. c\<lparr>qrCheckInterval := None\<rparr>) (clear_timer h w1) else w1)"

text \<open>
  \<open>handleWechatLogin\<close>: nothing in its \<open>try\<close> body is awaited (the call to the back end
  is commented out, lines 260 to 262), and assignments and timer calls do not throw, so
  the body always runs to its end. The \<open>catch\<close> of lines 291 to 294 is kept as a
  function of the exception it would be given.
\<close>

definition handleWechatLogin_catch :: "exn \<Rightarrow> world \<Rightarrow> world" where
  "handleWechatLogin_catch e w =
     emit (Toast ToastError WechatLoginFailed) (emit (ConsoleError ''Wechat login error:'' e) w)"

definition handleWechatLogin :: "world \<Rightarrow> world" where
  "handleWechatLogin w =
     (let w1 = upd (\<lambda>c. c\<lparr>showWechatQR := True, qrExpired := False, qrScanned := False,
                          wechatQRUrl := placeholderQR\<rparr>) w;
          p = set_timer Interval QRPoll 2000 w1;
          w2 = upd (\<lambda>c. c\<lparr>qrCheckInterval := Some (fst p)\<rparr>) (snd p);
          q = set_timer Timeout QRExpire QR_EXPIRE_TIME w2
      in upd (\<lambda>c. c\<lparr>qrExpireTimer := Some (fst q)\<rparr>) (snd q))"

text \<open>The \<open>await\<close> of line 250 waits for a function that has already run to its end;
  nothing follows it.\<close>

definition refreshQRCode :: "world \<Rightarrow> world" where
  "refreshQRCode w =
     handleWechatLogin (upd (\<lambda>c. c\<lparr>qrExpired := False, qrScanned := False\<rparr>) (clearQRTimers w))"

text \<open>The timeout callback of line 283. \<open>clearInterval(qrCheckInterval!)\<close> with the
  variable \<open>null\<close> disarms nothing.\<close>

definition qrExpire_callback :: "world \<Rightarrow> world" where
  "qrExpire_callback w =
     (let w1 = upd (\<lambda>c. c\<lparr>qrExpired := True, qrScanned := False\<rparr>) w;
          w2 = (case qrCheckInterval (comp w1) of None \<Rightarrow> w1 | Some h \<Rightarrow> clear_timer h w1);
          w3 = upd (\<lambda>c. c\<lparr>qrCheckInterval := None\<rparr>) w2
      in emit (Toast ToastInfo QRExpiredRefresh) w3)"

subsection \<open>switchMode and clearErrors (lines 297 to 316)\<close>

definition clear_ref :: "errors_ref \<Rightarrow> errors_ref" where
  "clear_ref r = r\<lparr>ref_value := Rec Map.empty\<rparr>"

definition clearErrors :: "world \<Rightarrow> world" where
  "clearErrors w =
     upd (\<lambda>c. c\<lparr>loginErrors := clear_ref (loginErrors c),
                registerErrors := clear_ref (registerErrors c),
                forgotErrors := clear_ref (forgotErrors c)\<rparr>) w"

definition switchMode :: "mode \<Rightarrow> world \<Rightarrow> world" where
  "switchMode m w =
     (let w1 = clearErrors (upd (\<lambda>c. c\<lparr>currentMode := m\<rparr>) w)
      in if m = Register \<or> m = Forgot then
           (if showWechatQR (comp w1) then
              upd (\<lambda>c. c\<lparr>showWechatQR := False, qrExpired := False\<rparr>) (clearQRTimers w1)
            else w1)
         else w1)"

subsection \<open>The form handlers (lines 104 to 231)\<close>

text \<open>The object literals of lines 108 to 114 and 123 to 128 (the second leaves \<open>code\<close>
  out, the first sets it to \<open>undefined\<close>), and of lines 136 to 141 and 150 to 154 (the
  same for \<open>password\<close>).\<close>

definition account_payload :: "component \<Rightarrow> login_payload" where
  "account_payload c =
     (let account = lf_account (loginForm c);
          isEmail = (CHR ''@'' \<in> set account)
      in \<lparr>lp_email = (if isEmail then Some account else None),
          lp_phone = (if \<not> isEmail then Some account else None),
          lp_password = Some (lf_password (loginForm c)),
          lp_code = None, lp_type = EmailType\<rparr>)"

definition phone_code_payload :: "component \<Rightarrow> login_payload" where
  "phone_code_payload c =
     \<lparr>lp_email = None, lp_phone = Some (pf_phone (phoneLoginForm c)), lp_password = None,
      lp_code = Some (pf_code (phoneLoginForm c)), lp_type = PhoneType\<rparr>"

definition handleLogin :: "env \<Rightarrow> world \<Rightarrow> world" where
  "handleLogin E w =
     (let p = account_payload (comp w);
          validation = validateLoginForm E p;
          w1 = emit (CallValidateLogin p) w
      in if \<not> isValid validation then
           upd (\<lambda>c. c\<lparr>loginErrors := Object_assign (loginErrors c) (errors validation)\<rparr>) w1
         else await LoginK (emit (CallLogin p) (upd (\<lambda>c. c\<lparr>isLoading := True\<rparr>) w1)))"

definition handlePhoneCodeLogin :: "env \<Rightarrow> world \<Rightarrow> world" where
  "handlePhoneCodeLogin E w =
     (let p = phone_code_payload (comp w);
          validation = validateLoginForm E p;
          w1 = emit (CallValidateLogin p) w
      in if \<not> isValid validation then
           upd (\<lambda>c. c\<lparr>loginErrors := Object_assign (loginErrors c) (errors validation)\<rparr>) w1
         else await PhoneCodeLoginK (emit (CallLogin p) (upd (\<lambda>c. c\<lparr>isLoading := True\<rparr>) w1)))"

text \<open>Both login handlers go on the same way after the \<open>await\<close>: there is no
  \<open>catch\<close>, only the \<open>finally\<close> of lines 129 and 155.\<close>

definition handleLogin_resume :: "outcome \<Rightarrow> world \<Rightarrow> completion \<times> world" where
  "handleLogin_resume out w =
     (case out of
        Resolved r \<Rightarrow> (Returned, upd (\<lambda>c. c\<lparr>isLoading := False\<rparr>) w)
      | Rejected e \<Rightarrow> (Threw e, upd (\<lambda>c. c\<lparr>isLoading := False\<rparr>) w))"

definition handlePhoneCodeLogin_resume :: "outcome \<Rightarrow> world \<Rightarrow> completion \<times> world" where
  "handlePhoneCodeLogin_resume out w =
     (case out of
        Resolved r \<Rightarrow> (Returned, upd (\<lambda>c. c\<lparr>isLoading := False\<rparr>) w)
      | Rejected e \<Rightarrow> (Threw e, upd (\<lambda>c. c\<lparr>isLoading := False\<rparr>) w))"

text \<open>The object literals of lines 167 to 173 and 182 to 188.\<close>

definition register_payload_of :: "component \<Rightarrow> register_payload" where
  "register_payload_of c =
     \<lparr>rp_phone = rf_phone (registerForm c), rp_password = rf_password (registerForm c),
      rp_code = rf_code (registerForm c), rp_nickname = None, rp_email = None\<rparr>"

definition handleRegister :: "env \<Rightarrow> world \<Rightarrow> world" where
  "handleRegister E w =
     (let f = registerForm (comp w)
      in if rf_password f \<noteq> rf_confirmPassword f then emit (Toast ToastError PasswordMismatch) w
         else
           (let p = register_payload_of (comp w);
                validation = validateRegisterForm E p;
                w1 = emit (CallValidateRegister p) w
            in if \<not> isValid validation then
                 upd (\<lambda>c. c\<lparr>registerErrors :=
                             Object_assign (registerErrors c) (errors validation)\<rparr>) w1
               else await RegisterK
                      (emit (CallRegister p) (upd (\<lambda>c. c\<lparr>isLoading := True\<rparr>) w1))))"

definition handleRegister_resume :: "outcome \<Rightarrow> world \<Rightarrow> completion \<times> world" where
  "handleRegister_resume out w =
     (case out of
        Resolved r \<Rightarrow> (Returned, upd (\<lambda>c. c\<lparr>isLoading := False\<rparr>) w)
      | Rejected e \<Rightarrow> (Threw e, upd (\<lambda>c. c\<lparr>isLoading := False\<rparr>) w))"

text \<open>The object literals of lines 201 to 206 and 215 to 220.\<close>

definition reset_payload_of :: "component \<Rightarrow> reset_payload" where
  "reset_payload_of c =
     \<lparr>sp_phone = ff_phone (forgotForm c), sp_email = None, sp_code = ff_code (forgotForm c),
      sp_newPassword = ff_newPassword (forgotForm c)\<rparr>"

definition handleForgotPassword :: "env \<Rightarrow> world \<Rightarrow> world" where
  "handleForgotPassword E w =
     (let f = forgotForm (comp w)
      in if ff_newPassword f \<noteq> ff_confirmPassword f then
           emit (Toast ToastError PasswordMismatch) w
         else
           (let p = reset_payload_of (comp w);
                validation = validateResetPasswordForm E p;
                w1 = emit (CallValidateReset p) w
            in if \<not> isValid validation then
                 upd (\<lambda>c. c\<lparr>forgotErrors :=
                             Object_assign (forgotErrors c) (errors validation)\<rparr>) w1
               else await ForgotPasswordK
                      (emit (CallResetPassword p) (upd (\<lambda>c. c\<lparr>isLoading := True\<rparr>) w1))))"

definition handleForgotPassword_resume :: "outcome \<Rightarrow> world \<Rightarrow> completion \<times> world" where
  "handleForgotPassword_resume out w =
     (case out of
        Resolved r \<Rightarrow>
          (Returned,
           upd (\<lambda>c. c\<lparr>isLoading := False\<rparr>)
             (if success r then switchMode Login (emit (Toast ToastSuccess ResetDone) w)
              else emit (Toast ToastError (msg_or (msg r) ResetFailed)) w))
      | Rejected e \<Rightarrow> (Threw e, upd (\<lambda>c. c\<lparr>isLoading := False\<rparr>) w))"

subsection \<open>Lifecycle hooks (lines 341 to 354)\<close>

text \<open>The argument is \<open>route.query.redirect\<close>.\<close>

definition onMounted :: "string option \<Rightarrow> world \<Rightarrow> world" where
  "onMounted redirect w =
     (case redirect of
        None \<Rightarrow> w
      | Some r \<Rightarrow> if r = [] then w else emit (Toast ToastInfo LoginFirst) w)"

definition onBeforeUnmount :: "world \<Rightarrow> world" where
  "onBeforeUnmount w = clearQRTimers w"

subsection \<open>The template's conditions (lines 357 to 735)\<close>

text \<open>The \<open>:disabled\<close> binding of the three resend buttons (lines 422, 516, 613).\<close>

definition resend_disabled :: "component \<Rightarrow> bool" where
  "resend_disabled c = (isSendingCode c \<or> codeCountdown c > 0)"

text \<open>The \<open>v-if\<close> of the scan-success overlay (line 702) and of the QR column that holds
  it (line 684).\<close>

definition scanned_overlay :: "component \<Rightarrow> bool" where
  "scanned_overlay c = (showWechatQR c \<and> qrScanned c \<and> \<not> qrExpired c)"

definition qr_column_rendered :: "component \<Rightarrow> bool" where
  "qr_column_rendered c = (currentMode c = Login)"

subsection \<open>The component as a transition system\<close>

text \<open>
  An event is one thing the browser does to the mounted component: a listener of the
  template runs (an input's \<open>v-model\<close>, a \<open>@click\<close>), an armed timer fires, an awaited
  call settles, or a lifecycle hook runs. \<open>handleLogin\<close> and \<open>handleWechatLogin\<close> are
  bound to no listener: the login button of line 476 calls \<open>handlePhoneCodeLogin\<close>
  under both tabs, and \<open>handleWechatLogin\<close> is called from \<open>refreshQRCode\<close> only
  (line 250).

  Two transition systems are defined. In the first, \<open>reachable\<close>, every listener can
  run in every state: conditional rendering (\<open>v-if\<close>) and the \<open>loading\<close> property of
  the submit buttons only take listeners away, so its states include all those of the
  rendered page, and what holds of all of them holds of the page. In the second,
  \<open>reachable_page\<close>, a listener runs only while its element is rendered. The difference
  matters for the QR panel: the refresh button of line 717 is rendered only once
  \<open>qrExpired\<close> is set (line 712), which nothing but the expiry callback does (line 284).
\<close>

datatype field =
    LoginAccount | LoginPassword
  | PhoneLoginPhone | PhoneLoginCode
  | RegisterPhone | RegisterCode | RegisterPassword | RegisterConfirmPassword
  | ForgotPhone | ForgotCode | ForgotNewPassword | ForgotConfirmPassword

fun set_field :: "field \<Rightarrow> string \<Rightarrow> component \<Rightarrow> component" where
  "set_field LoginAccount s c = c\<lparr>loginForm := (loginForm c)\<lparr>lf_account := s\<rparr>\<rparr>"
| "set_field LoginPassword s c = c\<lparr>loginForm := (loginForm c)\<lparr>lf_password := s\<rparr>\<rparr>"
| "set_field PhoneLoginPhone s c = c\<lparr>phoneLoginForm := (phoneLoginForm c)\<lparr>pf_phone := s\<rparr>\<rparr>"
| "set_field PhoneLoginCode s c = c\<lparr>phoneLoginForm := (phoneLoginForm c)\<lparr>pf_code := s\<rparr>\<rparr>"
| "set_field RegisterPhone s c = c\<lparr>registerForm := (registerForm c)\<lparr>rf_phone := s\<rparr>\<rparr>"
| "set_field RegisterCode s c = c\<lparr>registerForm := (registerForm c)\<lparr>rf_code := s\<rparr>\<rparr>"
| "set_field RegisterPassword s c = c\<lparr>registerForm := (registerForm c)\<lparr>rf_password := s\<rparr>\<rparr>"
| "set_field RegisterConfirmPassword s c =
     c\<lparr>registerForm := (registerForm c)\<lparr>rf_confirmPassword := s\<rparr>\<rparr>"
| "set_field ForgotPhone s c = c\<lparr>forgotForm := (forgotForm c)\<lparr>ff_phone := s\<rparr>\<rparr>"
| "set_field ForgotCode s c = c\<lparr>forgotForm := (forgotForm c)\<lparr>ff_code := s\<rparr>\<rparr>"
| "set_field ForgotNewPassword s c = c\<lparr>forgotForm := (forgotForm c)\<lparr>ff_newPassword := s\<rparr>\<rparr>"
| "set_field ForgotConfirmPassword s c =
     c\<lparr>forgotForm := (forgotForm c)\<lparr>ff_confirmPassword := s\<rparr>\<rparr>"

datatype eye =
    EyeLogin | EyeRegister | EyeRegisterConfirm | EyeForgot | EyeForgotConfirm

fun toggle_eye :: "eye \<Rightarrow> component \<Rightarrow> component" where
  "toggle_eye EyeLogin c = c\<lparr>showLoginPassword := \<not> showLoginPassword c\<rparr>"
| "toggle_eye EyeRegister c = c\<lparr>showRegisterPassword := \<not> showRegisterPassword c\<rparr>"
| "toggle_eye EyeRegisterConfirm c =
     c\<lparr>showRegisterConfirmPassword := \<not> showRegisterConfirmPassword c\<rparr>"
| "toggle_eye EyeForgot c = c\<lparr>showForgotPassword := \<not> showForgotPassword c\<rparr>"
| "toggle_eye EyeForgotConfirm c =
     c\<lparr>showForgotConfirmPassword := \<not> showForgotConfirmPassword c\<rparr>"

text \<open>The phone number each resend button passes (lines 421, 515, 612).\<close>

fun resend_phone :: "code_purpose \<Rightarrow> component \<Rightarrow> string" where
  "resend_phone ForLogin c = pf_phone (phoneLoginForm c)"
| "resend_phone ForRegister c = rf_phone (registerForm c)"
| "resend_phone ForResetPassword c = ff_phone (forgotForm c)"

datatype event =
    Input field string
  | ClickTab login_type
  | ClickEye eye
  | ClickResend code_purpose
  | ClickLogin
  | ClickRegister
  | ClickResetPassword
  | ClickSwitchMode mode
  | ClickRefreshQR
  | TimerFires handle
  | Settles nat outcome
  | Mounted "string option"
  | BeforeUnmount

text \<open>A timer fires: a timeout is disarmed by firing, an interval stays armed; then
  its callback runs. A handle that is not armed fires nothing.\<close>

definition fire :: "handle \<Rightarrow> world \<Rightarrow> world" where
  "fire h w =
     (case find (\<lambda>t. tid t = h) (timers w) of
        None \<Rightarrow> w
      | Some t \<Rightarrow>
          (let w1 = (if api t = Timeout then clear_timer h w else w)
           in case callback t of
                QRPoll \<Rightarrow> w1
              | QRExpire \<Rightarrow> qrExpire_callback w1
              | Countdown \<Rightarrow> countdown_tick h w1))"

fun resume :: "env \<Rightarrow> cont \<Rightarrow> outcome \<Rightarrow> world \<Rightarrow> completion \<times> world" where
  "resume E SendCodeK out w = sendVerificationCode_resume E out w"
| "resume E LoginK out w = handleLogin_resume out w"
| "resume E PhoneCodeLoginK out w = handlePhoneCodeLogin_resume out w"
| "resume E RegisterK out w = handleRegister_resume out w"
| "resume E ForgotPasswordK out w = handleForgotPassword_resume out w"

text \<open>The \<open>k\<close>-th awaited call settles and its handler runs to its end. When an
  exception leaves the handler, its promise is rejected; the promise belongs to the
  caller, Vue's wrapper around listeners, and what that does with it (it reports the
  error) is outside this file. The log records that the exception left the handler.\<close>

definition settle :: "env \<Rightarrow> nat \<Rightarrow> outcome \<Rightarrow> world \<Rightarrow> world" where
  "settle E k out w =
     (if k < length (pending w) then
        (let r = resume E (pending w ! k) out
                   (w\<lparr>pending := take k (pending w) @ drop (Suc k) (pending w)\<rparr>)
         in case fst r of
              Returned \<Rightarrow> snd r
            | Threw e \<Rightarrow> emit (HandlerThrew e) (snd r))
      else w)"

text \<open>
  Modelled from the spec: \<open>BaseButton\<close> (\<open>@/components/BaseButton.vue\<close>, not in this
  file) runs no click listener while its \<open>disabled\<close> property is true. Section 4.2 of
  the spec makes that binding, at the call site, the guard against a second send; the
  clause for \<open>ClickResend\<close> follows it.
\<close>

fun step :: "env \<Rightarrow> event \<Rightarrow> world \<Rightarrow> world" where
  "step E (Input f s) w = upd (set_field f s) w"
| "step E (ClickTab t) w = upd (\<lambda>c. c\<lparr>loginType := t\<rparr>) w"
| "step E (ClickEye y) w = upd (toggle_eye y) w"
| "step E (ClickResend p) w =
     (if resend_disabled (comp w) then w
      else sendVerificationCode E (resend_phone p (comp w)) p w)"
| "step E ClickLogin w = handlePhoneCodeLogin E w"
| "step E ClickRegister w = handleRegister E w"
| "step E ClickResetPassword w = handleForgotPassword E w"
| "step E (ClickSwitchMode m) w = switchMode m w"
| "step E ClickRefreshQR w = refreshQRCode w"
| "step E (TimerFires h) w = fire h w"
| "step E (Settles k out) w = settle E k out w"
| "step E (Mounted redirect) w = onMounted redirect w"
| "step E BeforeUnmount w = onBeforeUnmount w"

definition run :: "env \<Rightarrow> event list \<Rightarrow> world \<Rightarrow> world" where
  "run E es w = fold (step E) es w"

inductive reachable :: "env \<Rightarrow> world \<Rightarrow> bool" for E :: env where
  reachable_init: "reachable E init"
| reachable_step: "reachable E w \<Longrightarrow> reachable E (step E e w)"

text \<open>
  The element that carries each listener, and the \<open>v-if\<close> conditions around it: the
  three mode blocks (lines 367, 489, 586), the two login forms (lines 397, 434), the QR
  column (line 684) and the expired overlay with the refresh button (line 712). The links
  of lines 483 and 484 are always in the login block (\<open>v-opacity\<close> does not remove them).
  Timers, awaited calls and lifecycle hooks do not depend on what is rendered.
\<close>

fun field_rendered :: "field \<Rightarrow> component \<Rightarrow> bool" where
  "field_rendered LoginAccount c = (currentMode c = Login \<and> loginType c \<noteq> Code)"
| "field_rendered LoginPassword c = (currentMode c = Login \<and> loginType c \<noteq> Code)"
| "field_rendered PhoneLoginPhone c = (currentMode c = Login \<and> loginType c = Code)"
| "field_rendered PhoneLoginCode c = (currentMode c = Login \<and> loginType c = Code)"
| "field_rendered RegisterPhone c = (currentMode c = Register)"
| "field_rendered RegisterCode c = (currentMode c = Register)"
| "field_rendered RegisterPassword c = (currentMode c = Register)"
| "field_rendered RegisterConfirmPassword c = (currentMode c = Register)"
| "field_rendered ForgotPhone c = (currentMode c = Forgot)"
| "field_rendered ForgotCode c = (currentMode c = Forgot)"
| "field_rendered ForgotNewPassword c = (currentMode c = Forgot)"
| "field_rendered ForgotConfirmPassword c = (currentMode c = Forgot)"

fun eye_rendered :: "eye \<Rightarrow> component \<Rightarrow> bool" where
  "eye_rendered EyeLogin c = (currentMode c = Login \<and> loginType c \<noteq> Code)"
| "eye_rendered EyeRegister c = (currentMode c = Register)"
| "eye_rendered EyeRegisterConfirm c = (currentMode c = Register)"
| "eye_rendered EyeForgot c = (currentMode c = Forgot)"
| "eye_rendered EyeForgotConfirm c = (currentMode c = Forgot)"

fun resend_rendered :: "code_purpose \<Rightarrow> component \<Rightarrow> bool" where
  "resend_rendered ForLogin c = (currentMode c = Login \<and> loginType c = Code)"
| "resend_rendered ForRegister c = (currentMode c = Register)"
| "resend_rendered ForResetPassword c = (currentMode c = Forgot)"

fun rendered :: "event \<Rightarrow> component \<Rightarrow> bool" where
  "rendered (Input f s) c = field_rendered f c"
| "rendered (ClickTab t) c = (currentMode c = Login)"
| "rendered (ClickEye y) c = eye_rendered y c"
| "rendered (ClickResend p) c = resend_rendered p c"
| "rendered ClickLogin c = (currentMode c = Login)"
| "rendered ClickRegister c = (currentMode c = Register)"
| "rendered ClickResetPassword c = (currentMode c = Forgot)"
| "rendered (ClickSwitchMode m) c =
     (if m = Login then currentMode c \<noteq> Login else currentMode c = Login)"
| "rendered ClickRefreshQR c = (currentMode c = Login \<and> showWechatQR c \<and> qrExpired c)"
| "rendered (TimerFires h) c = True"
| "rendered (Settles k out) c = True"
| "rendered (Mounted redirect) c = True"
| "rendered BeforeUnmount c = True"

inductive reachable_page :: "env \<Rightarrow> world \<Rightarrow> bool" for E :: env where
  page_init: "reachable_page E init"
| page_step: "reachable_page E w \<Longrightarrow> rendered e (comp w) \<Longrightarrow> reachable_page E (step E e w)"


subsection \<open>Sample inputs\<close>

text \<open>Two stand-ins for the validation module: one that rejects every form with a
  message for the phone field, one that accepts every form. The phone pattern accepts
  eleven characters; the resend interval is sixty seconds.\<close>

definition rejecting_env :: env where
  "rejecting_env =
     \<lparr>phoneRegex_test = (\<lambda>s. length s = 11), sendInterval = 60,
      validateLoginForm =
        (\<lambda>p. \<lparr>isValid = False, errors = [(''phone'', ''phone is required'')]\<rparr>),
      validateRegisterForm =
        (\<lambda>p. \<lparr>isValid = False, errors = [(''phone'', ''phone is required'')]\<rparr>),
      validateResetPasswordForm =
        (\<lambda>p. \<lparr>isValid = False, errors = [(''phone'', ''phone is required'')]\<rparr>)\<rparr>"

definition accepting_env :: env where
  "accepting_env =
     \<lparr>phoneRegex_test = (\<lambda>s. length s = 11), sendInterval = 60,
      validateLoginForm = (\<lambda>p. \<lparr>isValid = True, errors = []\<rparr>),
      validateRegisterForm = (\<lambda>p. \<lparr>isValid = True, errors = []\<rparr>),
      validateResetPasswordForm = (\<lambda>p. \<lparr>isValid = True, errors = []\<rparr>)\<rparr>"

text \<open>The user has typed two different passwords into the register form and a new
  password, but no confirmation, into the reset form.\<close>

definition mismatched :: world where
  "mismatched =
     run accepting_env
       [Input RegisterPassword ''secret1'', Input RegisterConfirmPassword ''secret2'',
        Input ForgotNewPassword ''secret1''] init"

text \<open>The QR flow has been started once, from the initial state: the poll has handle 1,
  the expiry handle 2.\<close>

definition qr_started :: world where
  "qr_started = run accepting_env [ClickRefreshQR] init"

text \<open>The QR flow has been started, from the initial state, and its expiry timeout has
  fired. The first event has no rendered element to come from.\<close>

definition qr_expired_world :: world where
  "qr_expired_world = run accepting_env [ClickRefreshQR, TimerFires 2] init"

text \<open>A phone number has been typed and the resend button clicked; the send-code call
  has not settled.\<close>

definition send_pending :: world where
  "send_pending =
     run accepting_env [Input PhoneLoginPhone ''13800000000'', ClickResend ForLogin] init"


text \<open>The login button is clicked on the empty form and the validator rejects it.\<close>

definition invalid_login :: world where
  "invalid_login = step rejecting_env ClickLogin init"

text \<open>The login button is clicked, the validator accepts, and the auth store's
  \<open>login\<close> rejects.\<close>

definition login_rejected :: world where
  "login_rejected =
     run accepting_env [ClickLogin, Settles 0 (Rejected ''network error'')] init"

subsection \<open>Predicates on states\<close>

text \<open>A send-code call is in flight: \<open>sendVerificationCode\<close> is parked at its
  \<open>await\<close>.\<close>

definition send_in_flight :: "world \<Rightarrow> bool" where
  "send_in_flight w = (SendCodeK \<in> set (pending w))"


text \<open>The events that can still reach a component after it has been torn down: its
  listeners are gone, but armed timers fire and awaited calls settle.\<close>

fun after_teardown :: "event \<Rightarrow> bool" where
  "after_teardown (TimerFires h) = True"
| "after_teardown (Settles k out) = True"
| "after_teardown e = False"

text \<open>The variables of the QR panel.\<close>

definition qr_vars ::
  "component \<Rightarrow> bool \<times> string \<times> bool \<times> bool \<times> handle option \<times> handle option" where
  "qr_vars c =
     (showWechatQR c, wechatQRUrl c, qrExpired c, qrScanned c, qrExpireTimer c,
      qrCheckInterval c)"

definition no_qr_armed :: "world \<Rightarrow> bool" where
  "no_qr_armed w \<longleftrightarrow> armed QRPoll w = [] \<and> armed QRExpire w = []"

subsection \<open>Invariants\<close>

text \<open>
  What holds of the timer table and the two handle variables in every reachable state:
  handles are positive, below the counter and pairwise different; a poll is armed
  exactly when \<open>qrCheckInterval\<close> holds its handle; an armed expiry has its handle in
  \<open>qrExpireTimer\<close>; and when \<open>qrExpireTimer\<close> is set, either that timeout is armed or
  the handle is armed for nothing and the expired flag is set.
\<close>

definition timers_inv :: "world \<Rightarrow> bool" where
  "timers_inv w \<longleftrightarrow>
     0 < next_timer w \<and>
     distinct (map tid (timers w)) \<and>
     (\<forall>t\<in>set (timers w). 0 < tid t \<and> tid t < next_timer w) \<and>
     (\<forall>t\<in>set (timers w). callback t = QRPoll \<longrightarrow>
        api t = Interval \<and> delay t = 2000 \<and> qrCheckInterval (comp w) = Some (tid t)) \<and>
     (\<forall>t\<in>set (timers w). callback t = QRExpire \<longrightarrow>
        api t = Timeout \<and> delay t = QR_EXPIRE_TIME
        \<and> qrExpireTimer (comp w) = Some (tid t)) \<and>
     (\<forall>h. qrCheckInterval (comp w) = Some h \<longrightarrow>
        (\<exists>t\<in>set (timers w). tid t = h \<and> callback t = QRPoll)) \<and>
     (\<forall>h. qrExpireTimer (comp w) = Some h \<longrightarrow>
        0 < h \<and> h < next_timer w \<and>
        ((\<exists>t\<in>set (timers w). tid t = h \<and> callback t = QRExpire)
         \<or> (h \<notin> tid ` set (timers w) \<and> qrExpired (comp w))))"

text \<open>What holds on the rendered page: the QR flow has never started.\<close>

definition page_quiet :: "world \<Rightarrow> bool" where
  "page_quiet w \<longleftrightarrow>
     no_qr_armed w \<and> qrExpireTimer (comp w) = None \<and> qrCheckInterval (comp w) = None
     \<and> \<not> qrExpired (comp w)"

text \<open>The flag \<open>isSendingCode\<close> counts the send-code calls in flight.\<close>

definition send_inv :: "world \<Rightarrow> bool" where
  "send_inv w \<longleftrightarrow>
     count_list (pending w) SendCodeK = (if isSendingCode (comp w) then 1 else 0)"

text \<open>An operation that leaves the timer table, the counter, the two handles and the
  expired flag alone.\<close>

definition same_qr :: "world \<Rightarrow> world \<Rightarrow> bool" where
  "same_qr w w' \<longleftrightarrow>
     timers w' = timers w \<and> next_timer w' = next_timer w \<and>
     qrCheckInterval (comp w') = qrCheckInterval (comp w) \<and>
     qrExpireTimer (comp w') = qrExpireTimer (comp w) \<and>
     qrExpired (comp w') = qrExpired (comp w)"


section \<open>Lemmas\<close>

subsection \<open>Projections of the small steps\<close>

lemma upd_simps [simp]:
  "comp (upd f w) = f (comp w)" "timers (upd f w) = timers w"
  "next_timer (upd f w) = next_timer w" "pending (upd f w) = pending w"
  "effects (upd f w) = effects w"
  by (simp_all add: upd_def)

lemma emit_simps [simp]:
  "comp (emit e w) = comp w" "timers (emit e w) = timers w"
  "next_timer (emit e w) = next_timer w" "pending (emit e w) = pending w"
  "effects (emit e w) = effects w @ [e]"
  by (simp_all add: emit_def)

lemma await_simps [simp]:
  "comp (await k w) = comp w" "timers (await k w) = timers w"
  "next_timer (await k w) = next_timer w" "pending (await k w) = pending w @ [k]"
  "effects (await k w) = effects w"
  by (simp_all add: await_def)

lemma clear_timer_simps [simp]:
  "comp (clear_timer h w) = comp w"
  "timers (clear_timer h w) = filter (\<lambda>t. tid t \<noteq> h) (timers w)"
  "next_timer (clear_timer h w) = next_timer w" "pending (clear_timer h w) = pending w"
  "effects (clear_timer h w) = effects w"
  by (simp_all add: clear_timer_def)

lemma set_timer_simps [simp]:
  "fst (set_timer a cb d w) = next_timer w"
  "comp (snd (set_timer a cb d w)) = comp w"
  "timers (snd (set_timer a cb d w))
     = timers w @ [\<lparr>tid = next_timer w, api = a, callback = cb, delay = d\<rparr>]"
  "next_timer (snd (set_timer a cb d w)) = Suc (next_timer w)"
  "pending (snd (set_timer a cb d w)) = pending w"
  "effects (snd (set_timer a cb d w)) = effects w"
  by (simp_all add: set_timer_def)

subsection \<open>The timer invariant\<close>

lemma same_qr_inv: "same_qr w w' \<Longrightarrow> timers_inv w \<Longrightarrow> timers_inv w'"
  by (simp add: same_qr_def timers_inv_def)


lemma inv_next: "timers_inv w \<Longrightarrow> 0 < next_timer w"
  unfolding timers_inv_def by blast

lemma inv_distinct: "timers_inv w \<Longrightarrow> distinct (map tid (timers w))"
  unfolding timers_inv_def by blast

lemma inv_range:
  "timers_inv w \<Longrightarrow> t \<in> set (timers w) \<Longrightarrow> 0 < tid t \<and> tid t < next_timer w"
  unfolding timers_inv_def by blast

lemma inv_poll:
  "timers_inv w \<Longrightarrow> t \<in> set (timers w) \<Longrightarrow> callback t = QRPoll \<Longrightarrow>
     api t = Interval \<and> delay t = 2000 \<and> qrCheckInterval (comp w) = Some (tid t)"
  unfolding timers_inv_def by blast

lemma inv_expire:
  "timers_inv w \<Longrightarrow> t \<in> set (timers w) \<Longrightarrow> callback t = QRExpire \<Longrightarrow>
     api t = Timeout \<and> delay t = QR_EXPIRE_TIME \<and> qrExpireTimer (comp w) = Some (tid t)"
  unfolding timers_inv_def by blast

lemma inv_check_handle:
  "timers_inv w \<Longrightarrow> qrCheckInterval (comp w) = Some h \<Longrightarrow>
     \<exists>t\<in>set (timers w). tid t = h \<and> callback t = QRPoll"
  unfolding timers_inv_def by blast

lemma inv_expire_handle:
  "timers_inv w \<Longrightarrow> qrExpireTimer (comp w) = Some h \<Longrightarrow>
     0 < h \<and> h < next_timer w \<and>
     ((\<exists>t\<in>set (timers w). tid t = h \<and> callback t = QRExpire)
      \<or> (h \<notin> tid ` set (timers w) \<and> qrExpired (comp w)))"
  unfolding timers_inv_def by blast

lemma same_tid_same_timer:
  "distinct (map tid ts) \<Longrightarrow> t \<in> set ts \<Longrightarrow> t' \<in> set ts \<Longrightarrow> tid t = tid t' \<Longrightarrow> t = t'"
  by (auto simp: distinct_map dest: inj_onD)

lemma countdown_not_stored:
  assumes inv: "timers_inv w" and t: "t \<in> set (timers w)" and c: "callback t = Countdown"
  shows "qrExpireTimer (comp w) \<noteq> Some (tid t)" and "qrCheckInterval (comp w) \<noteq> Some (tid t)"
proof -
  note d = inv_distinct [OF inv]
  show "qrExpireTimer (comp w) \<noteq> Some (tid t)"
  proof
    assume h: "qrExpireTimer (comp w) = Some (tid t)"
    from inv_expire_handle [OF inv h] t
    obtain t' where "t' \<in> set (timers w)" "tid t' = tid t" "callback t' = QRExpire" by auto
    with same_tid_same_timer [OF d t, of t'] c show False by auto
  qed
  show "qrCheckInterval (comp w) \<noteq> Some (tid t)"
  proof
    assume h: "qrCheckInterval (comp w) = Some (tid t)"
    from inv_check_handle [OF inv h]
    obtain t' where "t' \<in> set (timers w)" "tid t' = tid t" "callback t' = QRPoll" by auto
    with same_tid_same_timer [OF d t, of t'] c show False by auto
  qed
qed

lemma poll_handle_pos: "timers_inv w \<Longrightarrow> qrCheckInterval (comp w) = Some h \<Longrightarrow> 0 < h"
  using inv_check_handle inv_range by blast

lemma keep_countdown:
  assumes inv: "timers_inv w" and t: "t \<in> set (timers w)"
  shows "(qrExpireTimer (comp w) \<noteq> Some (tid t) \<and> qrCheckInterval (comp w) \<noteq> Some (tid t))
         = (callback t = Countdown)"
proof (cases "callback t")
  case QRPoll
  with inv_poll [OF inv t] show ?thesis by simp
next
  case QRExpire
  with inv_expire [OF inv t] show ?thesis by simp
next
  case Countdown
  with countdown_not_stored [OF inv t] show ?thesis by simp
qed


lemma clearQRTimers_frame [simp]:
  "next_timer (clearQRTimers w) = next_timer w"
  "pending (clearQRTimers w) = pending w"
  "effects (clearQRTimers w) = effects w"
  by (simp_all add: clearQRTimers_def Let_def split: option.split)

lemma clearQRTimers_comp:
  assumes inv: "timers_inv w"
  shows "comp (clearQRTimers w) = (comp w)\<lparr>qrExpireTimer := None, qrCheckInterval := None\<rparr>"
proof -
  have a: "\<And>h. qrExpireTimer (comp w) = Some h \<Longrightarrow> h \<noteq> 0"
    using inv_expire_handle [OF inv] by auto
  have b: "\<And>h. qrCheckInterval (comp w) = Some h \<Longrightarrow> h \<noteq> 0"
    using poll_handle_pos [OF inv] by auto
  show ?thesis
    by (cases "qrExpireTimer (comp w)"; cases "qrCheckInterval (comp w)")
       (simp_all add: clearQRTimers_def a b)
qed

lemma clearQRTimers_timers:
  assumes inv: "timers_inv w"
  shows "timers (clearQRTimers w) = filter (\<lambda>t. callback t = Countdown) (timers w)"
proof -
  have a: "\<And>h. qrExpireTimer (comp w) = Some h \<Longrightarrow> h \<noteq> 0"
    using inv_expire_handle [OF inv] by auto
  have b: "\<And>h. qrCheckInterval (comp w) = Some h \<Longrightarrow> h \<noteq> 0"
    using poll_handle_pos [OF inv] by auto
  have "timers (clearQRTimers w)
      = filter (\<lambda>t. qrExpireTimer (comp w) \<noteq> Some (tid t)
                   \<and> qrCheckInterval (comp w) \<noteq> Some (tid t)) (timers w)"
    by (cases "qrExpireTimer (comp w)"; cases "qrCheckInterval (comp w)")
       (auto simp add: clearQRTimers_def a b intro!: filter_cong)
  also have "\<dots> = filter (\<lambda>t. callback t = Countdown) (timers w)"
    by (rule filter_cong [OF refl]) (rule keep_countdown [OF inv])
  finally show ?thesis .
qed

lemma no_qr_timers_after_clear:
  assumes inv: "timers_inv w"
  shows "armed QRPoll (clearQRTimers w) = []" and "armed QRExpire (clearQRTimers w) = []"
  by (simp_all add: armed_def clearQRTimers_timers [OF inv])

lemma clearQRTimers_inv:
  assumes inv: "timers_inv w" shows "timers_inv (clearQRTimers w)"
  unfolding timers_inv_def
  using inv_next [OF inv] inv_distinct [OF inv] inv_range [OF inv]
  by (simp add: clearQRTimers_timers [OF inv] clearQRTimers_comp [OF inv] distinct_map_filter)

lemma timers_invI:
  assumes "0 < next_timer w"
    and "distinct (map tid (timers w))"
    and "\<And>t. t \<in> set (timers w) \<Longrightarrow> 0 < tid t \<and> tid t < next_timer w"
    and "\<And>t. t \<in> set (timers w) \<Longrightarrow> callback t = QRPoll \<Longrightarrow>
        api t = Interval \<and> delay t = 2000 \<and> qrCheckInterval (comp w) = Some (tid t)"
    and "\<And>t. t \<in> set (timers w) \<Longrightarrow> callback t = QRExpire \<Longrightarrow>
        api t = Timeout \<and> delay t = QR_EXPIRE_TIME \<and> qrExpireTimer (comp w) = Some (tid t)"
    and "\<And>h. qrCheckInterval (comp w) = Some h \<Longrightarrow>
        \<exists>t\<in>set (timers w). tid t = h \<and> callback t = QRPoll"
    and "\<And>h. qrExpireTimer (comp w) = Some h \<Longrightarrow>
        0 < h \<and> h < next_timer w \<and>
        ((\<exists>t\<in>set (timers w). tid t = h \<and> callback t = QRExpire)
         \<or> (h \<notin> tid ` set (timers w) \<and> qrExpired (comp w)))"
  shows "timers_inv w"
  unfolding timers_inv_def using assms by blast

lemma inv_fresh:
  assumes inv: "timers_inv w"
  shows "next_timer w \<notin> tid ` set (timers w)" and "Suc (next_timer w) \<notin> tid ` set (timers w)"
  using inv_range [OF inv] by fastforce+

lemma handleWechatLogin_simps [simp]:
  "timers (handleWechatLogin w) =
     timers w @ [\<lparr>tid = next_timer w, api = Interval, callback = QRPoll, delay = 2000\<rparr>,
                 \<lparr>tid = Suc (next_timer w), api = Timeout, callback = QRExpire,
                  delay = QR_EXPIRE_TIME\<rparr>]"
  "next_timer (handleWechatLogin w) = Suc (Suc (next_timer w))"
  "pending (handleWechatLogin w) = pending w"
  "effects (handleWechatLogin w) = effects w"
  "comp (handleWechatLogin w) =
     (comp w)\<lparr>showWechatQR := True, qrExpired := False, qrScanned := False,
              wechatQRUrl := placeholderQR, qrCheckInterval := Some (next_timer w),
              qrExpireTimer := Some (Suc (next_timer w))\<rparr>"
  by (simp_all add: handleWechatLogin_def Let_def)

lemma refreshQRCode_simps:
  assumes inv: "timers_inv w"
  shows "timers (refreshQRCode w) =
     filter (\<lambda>t. callback t = Countdown) (timers w)
       @ [\<lparr>tid = next_timer w, api = Interval, callback = QRPoll, delay = 2000\<rparr>,
          \<lparr>tid = Suc (next_timer w), api = Timeout, callback = QRExpire,
           delay = QR_EXPIRE_TIME\<rparr>]"
    and "next_timer (refreshQRCode w) = Suc (Suc (next_timer w))"
    and "qrCheckInterval (comp (refreshQRCode w)) = Some (next_timer w)"
    and "qrExpireTimer (comp (refreshQRCode w)) = Some (Suc (next_timer w))"
    and "qrExpired (comp (refreshQRCode w)) = False"
  by (simp_all add: refreshQRCode_def clearQRTimers_timers [OF inv])

lemma refreshQRCode_inv:
  assumes inv: "timers_inv w" shows "timers_inv (refreshQRCode w)"
proof (rule timers_invI)
  note r = refreshQRCode_simps [OF inv]
  show "0 < next_timer (refreshQRCode w)" by (simp add: r)
  show "distinct (map tid (timers (refreshQRCode w)))"
    using inv_distinct [OF inv] inv_fresh [OF inv]
    by (auto simp add: r distinct_map_filter)
  show "0 < tid t \<and> tid t < next_timer (refreshQRCode w)"
    if "t \<in> set (timers (refreshQRCode w))" for t
    using that inv_range [OF inv, of t] inv_next [OF inv] by (auto simp add: r)
  show "api t = Interval \<and> delay t = 2000
        \<and> qrCheckInterval (comp (refreshQRCode w)) = Some (tid t)"
    if "t \<in> set (timers (refreshQRCode w))" "callback t = QRPoll" for t
    using that by (auto simp add: r)
  show "api t = Timeout \<and> delay t = QR_EXPIRE_TIME
        \<and> qrExpireTimer (comp (refreshQRCode w)) = Some (tid t)"
    if "t \<in> set (timers (refreshQRCode w))" "callback t = QRExpire" for t
    using that by (auto simp add: r)
  show "\<exists>t\<in>set (timers (refreshQRCode w)). tid t = h \<and> callback t = QRPoll"
    if "qrCheckInterval (comp (refreshQRCode w)) = Some h" for h
    using that by (auto simp add: r)
  show "0 < h \<and> h < next_timer (refreshQRCode w) \<and>
        ((\<exists>t\<in>set (timers (refreshQRCode w)). tid t = h \<and> callback t = QRExpire)
         \<or> (h \<notin> tid ` set (timers (refreshQRCode w)) \<and> qrExpired (comp (refreshQRCode w))))"
    if "qrExpireTimer (comp (refreshQRCode w)) = Some h" for h
    using that by (auto simp add: r)
qed

text \<open>Removing a countdown timer, adding one.\<close>

lemma remove_countdown_inv:
  assumes inv: "timers_inv w" and t: "t \<in> set (timers w)" and c: "callback t = Countdown"
    and ts: "timers w' = filter (\<lambda>x. tid x \<noteq> tid t) (timers w)"
    and n: "next_timer w' = next_timer w"
    and q: "qrCheckInterval (comp w') = qrCheckInterval (comp w)"
           "qrExpireTimer (comp w') = qrExpireTimer (comp w)"
           "qrExpired (comp w') = qrExpired (comp w)"
  shows "timers_inv w'"
proof (rule timers_invI)
  show "0 < next_timer w'" using inv_next [OF inv] n by simp
  show "distinct (map tid (timers w'))" using inv_distinct [OF inv] ts
    by (simp add: distinct_map_filter)
  show "0 < tid x \<and> tid x < next_timer w'" if "x \<in> set (timers w')" for x
    using that inv_range [OF inv, of x] ts n by simp
  show "api x = Interval \<and> delay x = 2000 \<and> qrCheckInterval (comp w') = Some (tid x)"
    if "x \<in> set (timers w')" "callback x = QRPoll" for x
    using that inv_poll [OF inv, of x] ts q by simp
  show "api x = Timeout \<and> delay x = QR_EXPIRE_TIME \<and> qrExpireTimer (comp w') = Some (tid x)"
    if "x \<in> set (timers w')" "callback x = QRExpire" for x
    using that inv_expire [OF inv, of x] ts q by simp
  show "\<exists>x\<in>set (timers w'). tid x = h \<and> callback x = QRPoll"
    if "qrCheckInterval (comp w') = Some h" for h
  proof -
    from that q have h: "qrCheckInterval (comp w) = Some h" by simp
    from inv_check_handle [OF inv h] obtain x where
      x: "x \<in> set (timers w)" "tid x = h" "callback x = QRPoll" by auto
    from countdown_not_stored(2) [OF inv t c] h x have "tid x \<noteq> tid t" by auto
    with x ts show ?thesis by auto
  qed
  show "0 < h \<and> h < next_timer w' \<and>
        ((\<exists>x\<in>set (timers w'). tid x = h \<and> callback x = QRExpire)
         \<or> (h \<notin> tid ` set (timers w') \<and> qrExpired (comp w')))"
    if "qrExpireTimer (comp w') = Some h" for h
  proof -
    from that q have h: "qrExpireTimer (comp w) = Some h" by simp
    from countdown_not_stored(1) [OF inv t c] h have ne: "h \<noteq> tid t" by auto
    from inv_expire_handle [OF inv h] ne show ?thesis
      by (auto simp add: ts n q)
  qed
qed

lemma add_countdown_inv:
  assumes inv: "timers_inv w"
    and ts: "timers w' = timers w @ [\<lparr>tid = next_timer w, api = a, callback = Countdown, delay = d\<rparr>]"
    and n: "next_timer w' = Suc (next_timer w)"
    and q: "qrCheckInterval (comp w') = qrCheckInterval (comp w)"
           "qrExpireTimer (comp w') = qrExpireTimer (comp w)"
           "qrExpired (comp w') = qrExpired (comp w)"
  shows "timers_inv w'"
proof (rule timers_invI)
  show "0 < next_timer w'" using n by simp
  show "distinct (map tid (timers w'))" using inv_distinct [OF inv] inv_fresh [OF inv] ts
    by auto
  show "0 < tid x \<and> tid x < next_timer w'" if "x \<in> set (timers w')" for x
    using that inv_range [OF inv, of x] inv_next [OF inv] ts n by auto
  show "api x = Interval \<and> delay x = 2000 \<and> qrCheckInterval (comp w') = Some (tid x)"
    if "x \<in> set (timers w')" "callback x = QRPoll" for x
    using that inv_poll [OF inv, of x] ts q by auto
  show "api x = Timeout \<and> delay x = QR_EXPIRE_TIME \<and> qrExpireTimer (comp w') = Some (tid x)"
    if "x \<in> set (timers w')" "callback x = QRExpire" for x
    using that inv_expire [OF inv, of x] ts q by auto
  show "\<exists>x\<in>set (timers w'). tid x = h \<and> callback x = QRPoll"
    if "qrCheckInterval (comp w') = Some h" for h
    using that inv_check_handle [OF inv, of h] ts q by auto
  show "0 < h \<and> h < next_timer w' \<and>
        ((\<exists>x\<in>set (timers w'). tid x = h \<and> callback x = QRExpire)
         \<or> (h \<notin> tid ` set (timers w') \<and> qrExpired (comp w')))"
    if "qrExpireTimer (comp w') = Some h" for h
    using that inv_expire_handle [OF inv, of h] ts q n by auto
qed

lemma find_tid:
  "find (\<lambda>t. tid t = h) ts = Some t \<Longrightarrow> t \<in> set ts \<and> tid t = h"
  by (induction ts) (auto split: if_splits)

lemma fire_poll:
  assumes inv: "timers_inv w" and f: "find (\<lambda>t. tid t = h) (timers w) = Some t"
    and c: "callback t = QRPoll"
  shows "fire h w = w"
  using inv_poll [OF inv _ c] find_tid [OF f] f c by (simp add: fire_def)

lemma fire_expire:
  assumes inv: "timers_inv w" and f: "find (\<lambda>t. tid t = h) (timers w) = Some t"
    and c: "callback t = QRExpire"
  shows "timers (fire h w) = filter (\<lambda>t. callback t = Countdown) (timers w)"
    and "comp (fire h w) = (comp w)\<lparr>qrExpired := True, qrScanned := False, qrCheckInterval := None\<rparr>"
    and "next_timer (fire h w) = next_timer w"
    and "pending (fire h w) = pending w"
    and "effects (fire h w) = effects w @ [Toast ToastInfo QRExpiredRefresh]"
proof -
  from find_tid [OF f] have t: "t \<in> set (timers w)" and h: "tid t = h" by simp_all
  from inv_expire [OF inv t c] h
  have a: "api t = Timeout" and e: "qrExpireTimer (comp w) = Some h" by simp_all
  have fe: "fire h w = qrExpire_callback (clear_timer h w)"
    using f c a by (simp add: fire_def)
  have "timers (fire h w)
      = filter (\<lambda>t. qrExpireTimer (comp w) \<noteq> Some (tid t)
                   \<and> qrCheckInterval (comp w) \<noteq> Some (tid t)) (timers w)"
    unfolding fe using e
    by (cases "qrCheckInterval (comp w)")
       (auto simp add: qrExpire_callback_def Let_def intro!: filter_cong)
  also have "\<dots> = filter (\<lambda>t. callback t = Countdown) (timers w)"
    by (rule filter_cong [OF refl]) (rule keep_countdown [OF inv])
  finally show "timers (fire h w) = filter (\<lambda>t. callback t = Countdown) (timers w)" .
  show "comp (fire h w) = (comp w)\<lparr>qrExpired := True, qrScanned := False, qrCheckInterval := None\<rparr>"
    unfolding fe by (simp add: qrExpire_callback_def Let_def split: option.split)
  show "next_timer (fire h w) = next_timer w"
    unfolding fe by (simp add: qrExpire_callback_def Let_def split: option.split)
  show "pending (fire h w) = pending w"
    unfolding fe by (simp add: qrExpire_callback_def Let_def split: option.split)
  show "effects (fire h w) = effects w @ [Toast ToastInfo QRExpiredRefresh]"
    unfolding fe by (simp add: qrExpire_callback_def Let_def split: option.split)
qed

lemma fire_expire_inv:
  assumes inv: "timers_inv w" and f: "find (\<lambda>t. tid t = h) (timers w) = Some t"
    and c: "callback t = QRExpire"
  shows "timers_inv (fire h w)"
proof (rule timers_invI)
  note r = fire_expire [OF inv f c]
  from find_tid [OF f] have t: "t \<in> set (timers w)" and h: "tid t = h" by simp_all
  from inv_expire [OF inv t c] h have e: "qrExpireTimer (comp w) = Some h" by simp
  show "0 < next_timer (fire h w)" using inv_next [OF inv] by (simp add: r)
  show "distinct (map tid (timers (fire h w)))"
    using inv_distinct [OF inv] by (simp add: r distinct_map_filter)
  show "0 < tid x \<and> tid x < next_timer (fire h w)" if "x \<in> set (timers (fire h w))" for x
    using that inv_range [OF inv, of x] by (simp add: r)
  show "api x = Interval \<and> delay x = 2000 \<and> qrCheckInterval (comp (fire h w)) = Some (tid x)"
    if "x \<in> set (timers (fire h w))" "callback x = QRPoll" for x
    using that by (simp add: r)
  show "api x = Timeout \<and> delay x = QR_EXPIRE_TIME
        \<and> qrExpireTimer (comp (fire h w)) = Some (tid x)"
    if "x \<in> set (timers (fire h w))" "callback x = QRExpire" for x
    using that by (simp add: r)
  show "\<exists>x\<in>set (timers (fire h w)). tid x = k \<and> callback x = QRPoll"
    if "qrCheckInterval (comp (fire h w)) = Some k" for k
    using that by (simp add: r)
  show "0 < k \<and> k < next_timer (fire h w) \<and>
        ((\<exists>x\<in>set (timers (fire h w)). tid x = k \<and> callback x = QRExpire)
         \<or> (k \<notin> tid ` set (timers (fire h w)) \<and> qrExpired (comp (fire h w))))"
    if "qrExpireTimer (comp (fire h w)) = Some k" for k
  proof -
    from that e have k: "k = h" by (simp add: r)
    have "h \<notin> tid ` set (timers (fire h w))"
    proof
      assume "h \<in> tid ` set (timers (fire h w))"
      then obtain x where x: "x \<in> set (timers w)" "callback x = Countdown" "tid x = h"
        by (auto simp add: r)
      from countdown_not_stored(1) [OF inv x(1,2)] x(3) e show False by simp
    qed
    with inv_expire_handle [OF inv e] k show ?thesis by (simp add: r)
  qed
qed

lemma fire_countdown_inv:
  assumes inv: "timers_inv w" and f: "find (\<lambda>t. tid t = h) (timers w) = Some t"
    and c: "callback t = Countdown"
  shows "timers_inv (fire h w)"
proof -
  from find_tid [OF f] have t: "t \<in> set (timers w)" and h: "tid t = h" by simp_all
  have q: "qrCheckInterval (comp (fire h w)) = qrCheckInterval (comp w)"
          "qrExpireTimer (comp (fire h w)) = qrExpireTimer (comp w)"
          "qrExpired (comp (fire h w)) = qrExpired (comp w)"
          "next_timer (fire h w) = next_timer w"
    using f c by (simp_all add: fire_def countdown_tick_def Let_def)
  have "timers (fire h w) = timers w \<or> timers (fire h w) = filter (\<lambda>x. tid x \<noteq> tid t) (timers w)"
    using f c h by (auto simp add: fire_def countdown_tick_def Let_def)
  then show ?thesis
  proof
    assume "timers (fire h w) = timers w"
    with q inv show ?thesis by (simp add: same_qr_inv same_qr_def)
  next
    assume "timers (fire h w) = filter (\<lambda>x. tid x \<noteq> tid t) (timers w)"
    from remove_countdown_inv [OF inv t c this q(4) q(1) q(2) q(3)] show ?thesis .
  qed
qed

lemma fire_inv:
  assumes inv: "timers_inv w" shows "timers_inv (fire h w)"
proof (cases "find (\<lambda>t. tid t = h) (timers w)")
  case None
  then show ?thesis using inv by (simp add: fire_def)
next
  case (Some t)
  show ?thesis
  proof (cases "callback t")
    case QRPoll
    with fire_poll [OF inv Some] inv show ?thesis by simp
  next
    case QRExpire
    with fire_expire_inv [OF inv Some] show ?thesis by simp
  next
    case Countdown
    with fire_countdown_inv [OF inv Some] show ?thesis by simp
  qed
qed

lemma same_qr_refl [simp]: "same_qr w w"
  by (simp add: same_qr_def)

lemma same_qr_emit [simp]: "same_qr w (emit e w)"
  by (simp add: same_qr_def)

lemma set_field_qr [simp]:
  "qrCheckInterval (set_field f s c) = qrCheckInterval c"
  "qrExpireTimer (set_field f s c) = qrExpireTimer c"
  "qrExpired (set_field f s c) = qrExpired c"
  by (cases f; simp)+

lemma toggle_eye_qr [simp]:
  "qrCheckInterval (toggle_eye y c) = qrCheckInterval c"
  "qrExpireTimer (toggle_eye y c) = qrExpireTimer c"
  "qrExpired (toggle_eye y c) = qrExpired c"
  by (cases y; simp)+

lemma same_qr_sendVerificationCode: "same_qr w (sendVerificationCode E phone ty w)"
  by (simp add: same_qr_def sendVerificationCode_def)

lemma same_qr_handlePhoneCodeLogin: "same_qr w (handlePhoneCodeLogin E w)"
  by (simp add: same_qr_def handlePhoneCodeLogin_def Let_def)

lemma same_qr_handleLogin: "same_qr w (handleLogin E w)"
  by (simp add: same_qr_def handleLogin_def Let_def)

lemma same_qr_handleRegister: "same_qr w (handleRegister E w)"
  by (simp add: same_qr_def handleRegister_def Let_def)

lemma same_qr_handleForgotPassword: "same_qr w (handleForgotPassword E w)"
  by (simp add: same_qr_def handleForgotPassword_def Let_def)

lemma same_qr_onMounted: "same_qr w (onMounted r w)"
  by (simp add: same_qr_def onMounted_def split: option.split)

lemma same_qr_clearErrors: "same_qr w (clearErrors w)"
  by (simp add: same_qr_def clearErrors_def)

lemma hide_panel_inv:
  assumes inv: "timers_inv w" and e: "qrExpireTimer (comp w) = None"
  shows "timers_inv (upd (\<lambda>c. c\<lparr>showWechatQR := False, qrExpired := False\<rparr>) w)"
  using inv e unfolding timers_inv_def by simp

lemma switchMode_inv:
  assumes inv: "timers_inv w" shows "timers_inv (switchMode m w)"
proof -
  let ?w1 = "clearErrors (upd (\<lambda>c. c\<lparr>currentMode := m\<rparr>) w)"
  have "same_qr w ?w1" by (simp add: same_qr_def clearErrors_def)
  from same_qr_inv [OF this inv] have i1: "timers_inv ?w1" .
  have i2: "timers_inv (upd (\<lambda>c. c\<lparr>showWechatQR := False, qrExpired := False\<rparr>) (clearQRTimers ?w1))"
    by (rule hide_panel_inv [OF clearQRTimers_inv [OF i1]]) (simp add: clearQRTimers_comp [OF i1])
  show ?thesis using i1 i2 by (auto simp add: switchMode_def Let_def)
qed

lemma switchMode_Login_same_qr: "same_qr w (switchMode Login w)"
  by (simp add: same_qr_def switchMode_def clearErrors_def)

lemma sendVerificationCode_resume_inv:
  assumes inv: "timers_inv w"
  shows "timers_inv (snd (sendVerificationCode_resume E out w))"
proof (cases "\<exists>r. out = Resolved r \<and> success r")
  case True
  then obtain r where o: "out = Resolved r" "success r" by auto
  show ?thesis
    by (rule add_countdown_inv [OF inv, of _ Interval 1000])
       (simp_all add: sendVerificationCode_resume_def o)
next
  case False
  then have "same_qr w (snd (sendVerificationCode_resume E out w))"
    by (cases out) (auto simp add: same_qr_def sendVerificationCode_resume_def)
  from same_qr_inv [OF this inv] show ?thesis .
qed

lemma resume_inv:
  assumes inv: "timers_inv w" shows "timers_inv (snd (resume E k out w))"
proof (cases k)
  case SendCodeK
  with sendVerificationCode_resume_inv [OF inv] show ?thesis by simp
next
  case LoginK
  have "same_qr w (snd (handleLogin_resume out w))"
    by (cases out) (simp_all add: same_qr_def handleLogin_resume_def)
  from same_qr_inv [OF this inv] LoginK show ?thesis by simp
next
  case PhoneCodeLoginK
  have "same_qr w (snd (handlePhoneCodeLogin_resume out w))"
    by (cases out) (simp_all add: same_qr_def handlePhoneCodeLogin_resume_def)
  from same_qr_inv [OF this inv] PhoneCodeLoginK show ?thesis by simp
next
  case RegisterK
  have "same_qr w (snd (handleRegister_resume out w))"
    by (cases out) (simp_all add: same_qr_def handleRegister_resume_def)
  from same_qr_inv [OF this inv] RegisterK show ?thesis by simp
next
  case ForgotPasswordK
  have "same_qr w (snd (handleForgotPassword_resume out w))"
    by (cases out)
       (simp_all add: same_qr_def handleForgotPassword_resume_def switchMode_def clearErrors_def)
  from same_qr_inv [OF this inv] ForgotPasswordK show ?thesis by simp
qed

lemma settle_inv:
  assumes inv: "timers_inv w" shows "timers_inv (settle E k out w)"
proof (cases "k < length (pending w)")
  case False
  with inv show ?thesis by (simp add: settle_def)
next
  case True
  let ?w1 = "w\<lparr>pending := take k (pending w) @ drop (Suc k) (pending w)\<rparr>"
  have "same_qr w ?w1" by (simp add: same_qr_def)
  from same_qr_inv [OF this inv] have i1: "timers_inv ?w1" .
  note i2 = resume_inv [OF i1, of E "pending w ! k" out]
  have "timers_inv (emit e (snd (resume E (pending w ! k) out ?w1)))" for e
    by (rule same_qr_inv [OF _ i2]) simp
  with i2 True show ?thesis
    by (simp add: settle_def Let_def split: completion.split)
qed

lemma step_inv:
  assumes inv: "timers_inv w" shows "timers_inv (step E e w)"
proof (cases e)
  case (Input f s)
  have "same_qr w (upd (set_field f s) w)" by (simp add: same_qr_def)
  from same_qr_inv [OF this inv] Input show ?thesis by simp
next
  case (ClickTab t)
  have "same_qr w (upd (\<lambda>c. c\<lparr>loginType := t\<rparr>) w)" by (simp add: same_qr_def)
  from same_qr_inv [OF this inv] ClickTab show ?thesis by simp
next
  case (ClickEye y)
  have "same_qr w (upd (toggle_eye y) w)" by (simp add: same_qr_def)
  from same_qr_inv [OF this inv] ClickEye show ?thesis by simp
next
  case (ClickResend p)
  with same_qr_inv [OF same_qr_sendVerificationCode inv] inv show ?thesis by simp
next
  case ClickLogin
  with same_qr_inv [OF same_qr_handlePhoneCodeLogin inv] show ?thesis by simp
next
  case ClickRegister
  with same_qr_inv [OF same_qr_handleRegister inv] show ?thesis by simp
next
  case ClickResetPassword
  with same_qr_inv [OF same_qr_handleForgotPassword inv] show ?thesis by simp
next
  case (ClickSwitchMode m)
  with switchMode_inv [OF inv] show ?thesis by simp
next
  case ClickRefreshQR
  with refreshQRCode_inv [OF inv] show ?thesis by simp
next
  case (TimerFires h)
  with fire_inv [OF inv] show ?thesis by simp
next
  case (Settles k out)
  with settle_inv [OF inv] show ?thesis by simp
next
  case (Mounted r)
  with same_qr_inv [OF same_qr_onMounted inv] show ?thesis by simp
next
  case BeforeUnmount
  with clearQRTimers_inv [OF inv] show ?thesis by (simp add: onBeforeUnmount_def)
qed

lemma init_inv: "timers_inv init"
  by (simp add: timers_inv_def init_def init_component_def)

lemma reachable_inv: "reachable E w \<Longrightarrow> timers_inv w"
  by (induction rule: reachable.induct) (simp_all add: init_inv step_inv)

subsection \<open>The send-code invariant\<close>

lemma set_field_sending [simp]: "isSendingCode (set_field f s c) = isSendingCode c"
  by (cases f) simp_all

lemma toggle_eye_sending [simp]: "isSendingCode (toggle_eye y c) = isSendingCode c"
  by (cases y) simp_all

lemma clearQRTimers_sending [simp]:
  "isSendingCode (comp (clearQRTimers w)) = isSendingCode (comp w)"
  by (simp add: clearQRTimers_def Let_def split: option.split)

lemma switchMode_send [simp]:
  "pending (switchMode m w) = pending w"
  "isSendingCode (comp (switchMode m w)) = isSendingCode (comp w)"
  by (simp_all add: switchMode_def clearErrors_def Let_def)

lemma fire_send [simp]:
  "pending (fire h w) = pending w"
  "isSendingCode (comp (fire h w)) = isSendingCode (comp w)"
  by (simp_all add: fire_def qrExpire_callback_def countdown_tick_def Let_def
        split: option.split timer_cb.split)

lemma refreshQRCode_send [simp]:
  "pending (refreshQRCode w) = pending w"
  "isSendingCode (comp (refreshQRCode w)) = isSendingCode (comp w)"
  by (simp_all add: refreshQRCode_def)

lemma count_list_remove_nth:
  "k < length xs \<Longrightarrow>
     count_list (take k xs @ drop (Suc k) xs) a + (if xs ! k = a then 1 else 0) = count_list xs a"
proof -
  assume k: "k < length xs"
  have "count_list xs a = count_list (take k xs @ xs ! k # drop (Suc k) xs) a"
    using id_take_nth_drop [OF k] by simp
  then show ?thesis by simp
qed

lemma sendVerificationCode_send_inv:
  assumes inv: "send_inv w" and en: "\<not> isSendingCode (comp w)"
  shows "send_inv (sendVerificationCode E phone ty w)"
  using inv en by (simp add: send_inv_def sendVerificationCode_def)

lemma settle_send_inv:
  assumes inv: "send_inv w" shows "send_inv (settle E k out w)"
proof (cases "k < length (pending w)")
  case False
  with inv show ?thesis by (simp add: settle_def)
next
  case True
  let ?ps = "take k (pending w) @ drop (Suc k) (pending w)"
  let ?w1 = "w\<lparr>pending := ?ps\<rparr>"
  note cnt = count_list_remove_nth [OF True, of SendCodeK]
  have r: "send_inv (snd (resume E (pending w ! k) out ?w1))"
  proof (cases "pending w ! k")
    case SendCodeK
    with cnt inv have "count_list ?ps SendCodeK = 0"
      by (simp add: send_inv_def split: if_splits)
    then show ?thesis using SendCodeK
      by (cases out) (simp_all add: send_inv_def sendVerificationCode_resume_def Let_def)
  next
    case LoginK
    with cnt inv show ?thesis
      by (cases out) (simp_all add: send_inv_def handleLogin_resume_def)
  next
    case PhoneCodeLoginK
    with cnt inv show ?thesis
      by (cases out) (simp_all add: send_inv_def handlePhoneCodeLogin_resume_def)
  next
    case RegisterK
    with cnt inv show ?thesis
      by (cases out) (simp_all add: send_inv_def handleRegister_resume_def)
  next
    case ForgotPasswordK
    with cnt inv show ?thesis
      by (cases out) (simp_all add: send_inv_def handleForgotPassword_resume_def)
  qed
  have "send_inv (emit e (snd (resume E (pending w ! k) out ?w1)))" for e
    using r by (simp add: send_inv_def)
  with r True show ?thesis
    by (simp add: settle_def Let_def split: completion.split)
qed

lemma step_send_inv:
  assumes inv: "send_inv w" shows "send_inv (step E e w)"
proof (cases e)
  case (ClickResend p)
  show ?thesis
  proof (cases "resend_disabled (comp w)")
    case True
    with inv ClickResend show ?thesis by simp
  next
    case False
    then have "\<not> isSendingCode (comp w)" by (simp add: resend_disabled_def)
    from sendVerificationCode_send_inv [OF inv this] False ClickResend show ?thesis by simp
  qed
next
  case (Settles k out)
  with settle_send_inv [OF inv] show ?thesis by simp
qed (use inv in \<open>simp_all add: send_inv_def handlePhoneCodeLogin_def handleRegister_def
      handleForgotPassword_def onMounted_def onBeforeUnmount_def Let_def split: option.split\<close>)

lemma init_send_inv: "send_inv init"
  by (simp add: send_inv_def init_def init_component_def)

lemma reachable_send_inv: "reachable E w \<Longrightarrow> send_inv w"
  by (induction rule: reachable.induct) (simp_all add: init_send_inv step_send_inv)

lemma send_inv_in_flight:
  assumes inv: "send_inv w" shows "isSendingCode (comp w) = send_in_flight w"
proof (cases "isSendingCode (comp w)")
  case True
  with inv have "count_list (pending w) SendCodeK \<noteq> 0" by (simp add: send_inv_def)
  then have "SendCodeK \<in> set (pending w)" by (simp add: count_list_0_iff)
  with True show ?thesis by (simp add: send_in_flight_def)
next
  case False
  with inv have "count_list (pending w) SendCodeK = 0" by (simp add: send_inv_def)
  then have "SendCodeK \<notin> set (pending w)" by (simp add: count_list_0_iff)
  with False show ?thesis by (simp add: send_in_flight_def)
qed

subsection \<open>Reachable states and armed timers\<close>

lemma reachable_run: "reachable E w \<Longrightarrow> reachable E (run E es w)"
  unfolding run_def by (induction es arbitrary: w) (simp_all add: reachable_step)

lemma armed_at_most_one:
  assumes d: "distinct xs" and s: "set xs \<subseteq> {h}"
  shows "xs = [] \<or> xs = [h]"
proof (cases xs)
  case Nil
  then show ?thesis by simp
next
  case (Cons a ys)
  with s have a: "a = h" and ys: "set ys \<subseteq> {h}" by auto
  from d Cons a have "h \<notin> set ys" by simp
  with ys have "ys = []" by (cases ys) auto
  with Cons a show ?thesis by simp
qed

lemma distinct_armed: "timers_inv w \<Longrightarrow> distinct (armed cb w)"
  by (simp add: armed_def distinct_map_filter inv_distinct)

lemma armed_poll:
  assumes inv: "timers_inv w"
  shows "armed QRPoll w = (case qrCheckInterval (comp w) of None \<Rightarrow> [] | Some h \<Rightarrow> [h])"
proof (cases "qrCheckInterval (comp w)")
  case None
  with inv_poll [OF inv] have "filter (\<lambda>t. callback t = QRPoll) (timers w) = []"
    by (auto simp add: filter_empty_conv)
  with None show ?thesis by (simp add: armed_def)
next
  case (Some h)
  from inv_poll [OF inv] Some have "set (armed QRPoll w) \<subseteq> {h}"
    by (auto simp add: armed_def)
  from armed_at_most_one [OF distinct_armed [OF inv] this]
  have "armed QRPoll w = [] \<or> armed QRPoll w = [h]" .
  moreover from inv_check_handle [OF inv Some] have "h \<in> set (armed QRPoll w)"
    by (auto simp add: armed_def)
  ultimately show ?thesis using Some by auto
qed

lemma armed_expire:
  assumes inv: "timers_inv w"
  shows "armed QRExpire w = [] \<and>
           (qrExpireTimer (comp w) = None
            \<or> (\<exists>h. qrExpireTimer (comp w) = Some h \<and> h \<notin> set (map tid (timers w))
                   \<and> qrExpired (comp w)))
         \<or> (\<exists>h. qrExpireTimer (comp w) = Some h \<and> armed QRExpire w = [h])"
proof (cases "qrExpireTimer (comp w)")
  case None
  with inv_expire [OF inv] have "filter (\<lambda>t. callback t = QRExpire) (timers w) = []"
    by (auto simp add: filter_empty_conv)
  with None show ?thesis by (simp add: armed_def)
next
  case (Some h)
  from inv_expire [OF inv] Some have "set (armed QRExpire w) \<subseteq> {h}"
    by (auto simp add: armed_def)
  from armed_at_most_one [OF distinct_armed [OF inv] this]
  have c: "armed QRExpire w = [] \<or> armed QRExpire w = [h]" .
  from inv_expire_handle [OF inv Some]
  have "h \<in> set (armed QRExpire w) \<or> (h \<notin> set (map tid (timers w)) \<and> qrExpired (comp w))"
    by (auto simp add: armed_def)
  with c Some show ?thesis by auto
qed

lemma find_distinct:
  "distinct (map tid ts) \<Longrightarrow> t \<in> set ts \<Longrightarrow> find (\<lambda>x. tid x = tid t) ts = Some t"
  by (induction ts) (auto simp add: rev_image_eqI)

text \<open>\<open>handleWechatLogin\<close> itself disarms nothing: it adds its two timers to those
  that are armed. That no second pair is ever armed rests on its one call site, in
  \<open>refreshQRCode\<close>, after \<open>clearQRTimers\<close>.\<close>

lemma handleWechatLogin_adds_timers:
  "armed QRPoll (handleWechatLogin w) = armed QRPoll w @ [next_timer w]"
  "armed QRExpire (handleWechatLogin w) = armed QRExpire w @ [Suc (next_timer w)]"
  by (simp_all add: armed_def)

subsection \<open>States without an armed QR timer\<close>

lemma no_qr_armed_iff: "no_qr_armed w \<longleftrightarrow> (\<forall>t\<in>set (timers w). callback t = Countdown)"
proof -
  have "callback t = Countdown \<longleftrightarrow> callback t \<noteq> QRPoll \<and> callback t \<noteq> QRExpire" for t
    by (cases "callback t") simp_all
  then show ?thesis
    by (auto simp add: no_qr_armed_def armed_def filter_empty_conv)
qed

lemma fire_quiet:
  assumes q: "no_qr_armed w"
  shows "no_qr_armed (fire h w) \<and> qr_vars (comp (fire h w)) = qr_vars (comp w)"
proof (cases "find (\<lambda>t. tid t = h) (timers w)")
  case None
  with q show ?thesis by (simp add: fire_def)
next
  case (Some t)
  with find_tid [OF Some] q have c: "callback t = Countdown" by (simp add: no_qr_armed_iff)
  have "set (timers (fire h w)) \<subseteq> set (timers w)"
    using Some c by (auto simp add: fire_def countdown_tick_def Let_def)
  moreover have "qr_vars (comp (fire h w)) = qr_vars (comp w)"
    using Some c by (simp add: fire_def countdown_tick_def Let_def qr_vars_def)
  ultimately show ?thesis using q by (auto simp add: no_qr_armed_iff)
qed

lemma resume_quiet:
  assumes q: "no_qr_armed w"
  shows "no_qr_armed (snd (resume E k out w))
         \<and> qr_vars (comp (snd (resume E k out w))) = qr_vars (comp w)"
proof (cases k)
  case SendCodeK
  with q show ?thesis
    by (cases out)
       (auto simp add: no_qr_armed_iff qr_vars_def sendVerificationCode_resume_def Let_def)
next
  case LoginK
  with q show ?thesis
    by (cases out) (simp_all add: no_qr_armed_iff qr_vars_def handleLogin_resume_def)
next
  case PhoneCodeLoginK
  with q show ?thesis
    by (cases out) (simp_all add: no_qr_armed_iff qr_vars_def handlePhoneCodeLogin_resume_def)
next
  case RegisterK
  with q show ?thesis
    by (cases out) (simp_all add: no_qr_armed_iff qr_vars_def handleRegister_resume_def)
next
  case ForgotPasswordK
  with q show ?thesis
    by (cases out)
       (simp_all add: no_qr_armed_iff qr_vars_def handleForgotPassword_resume_def
          switchMode_def clearErrors_def)
qed

lemma settle_quiet:
  assumes q: "no_qr_armed w"
  shows "no_qr_armed (settle E k out w) \<and> qr_vars (comp (settle E k out w)) = qr_vars (comp w)"
proof (cases "k < length (pending w)")
  case False
  with q show ?thesis by (simp add: settle_def)
next
  case True
  let ?w1 = "w\<lparr>pending := take k (pending w) @ drop (Suc k) (pending w)\<rparr>"
  from q have "no_qr_armed ?w1" by (simp add: no_qr_armed_iff)
  from resume_quiet [OF this, of E "pending w ! k" out] True show ?thesis
    by (simp add: settle_def Let_def no_qr_armed_iff split: completion.split)
qed

lemma step_quiet:
  assumes "no_qr_armed w" and "after_teardown e"
  shows "no_qr_armed (step E e w) \<and> qr_vars (comp (step E e w)) = qr_vars (comp w)"
  using assms fire_quiet settle_quiet by (cases e) simp_all

lemma run_quiet:
  assumes "no_qr_armed w" and "list_all after_teardown es"
  shows "no_qr_armed (run E es w) \<and> qr_vars (comp (run E es w)) = qr_vars (comp w)"
  using assms
proof (induction es arbitrary: w)
  case Nil
  then show ?case by (simp add: run_def)
next
  case (Cons e es)
  from Cons.prems have e: "after_teardown e" and es: "list_all after_teardown es" by simp_all
  note s = step_quiet [OF Cons.prems(1) e, of E]
  from Cons.IH [OF conjunct1 [OF s] es] s show ?case by (simp add: run_def)
qed

subsection \<open>Validation failures\<close>

text \<open>Unless the validator names a field \<open>value\<close> or \<open>_value\<close>, \<open>Object.assign\<close> on
  an error ref leaves the record behind \<open>value\<close> as it was.\<close>

lemma Object_assign_keeps_value:
  "''value'' \<notin> fst ` set src \<Longrightarrow> ''_value'' \<notin> fst ` set src \<Longrightarrow>
     ref_value (Object_assign r src) = ref_value r"
  unfolding Object_assign_def
  by (induction src arbitrary: r) (auto simp add: assign_prop_def)

text \<open>When the validator rejects the form, each submit handler stops after the
  \<open>Object.assign\<close>: nothing is awaited, the loading flag is not touched, and the only
  call recorded is the one to the validator.\<close>

lemma handleLogin_invalid:
  "\<not> isValid (validateLoginForm E (account_payload (comp w))) \<Longrightarrow>
     handleLogin E w =
       upd (\<lambda>c. c\<lparr>loginErrors := Object_assign (loginErrors c)
                     (errors (validateLoginForm E (account_payload (comp w))))\<rparr>)
         (emit (CallValidateLogin (account_payload (comp w))) w)"
  by (simp add: handleLogin_def Let_def)

lemma handlePhoneCodeLogin_invalid:
  "\<not> isValid (validateLoginForm E (phone_code_payload (comp w))) \<Longrightarrow>
     handlePhoneCodeLogin E w =
       upd (\<lambda>c. c\<lparr>loginErrors := Object_assign (loginErrors c)
                     (errors (validateLoginForm E (phone_code_payload (comp w))))\<rparr>)
         (emit (CallValidateLogin (phone_code_payload (comp w))) w)"
  by (simp add: handlePhoneCodeLogin_def Let_def)

lemma handleRegister_invalid:
  "rf_password (registerForm (comp w)) = rf_confirmPassword (registerForm (comp w)) \<Longrightarrow>
   \<not> isValid (validateRegisterForm E (register_payload_of (comp w))) \<Longrightarrow>
     handleRegister E w =
       upd (\<lambda>c. c\<lparr>registerErrors := Object_assign (registerErrors c)
                     (errors (validateRegisterForm E (register_payload_of (comp w))))\<rparr>)
         (emit (CallValidateRegister (register_payload_of (comp w))) w)"
  by (simp add: handleRegister_def Let_def)

lemma handleForgotPassword_invalid:
  "ff_newPassword (forgotForm (comp w)) = ff_confirmPassword (forgotForm (comp w)) \<Longrightarrow>
   \<not> isValid (validateResetPasswordForm E (reset_payload_of (comp w))) \<Longrightarrow>
     handleForgotPassword E w =
       upd (\<lambda>c. c\<lparr>forgotErrors := Object_assign (forgotErrors c)
                     (errors (validateResetPasswordForm E (reset_payload_of (comp w))))\<rparr>)
         (emit (CallValidateReset (reset_payload_of (comp w))) w)"
  by (simp add: handleForgotPassword_def Let_def)

subsection \<open>The sample states, evaluated\<close>

lemmas eval_defs = run_def init_def init_component_def refreshQRCode_def clearQRTimers_def
  handleWechatLogin_def upd_def emit_def await_def set_timer_def clear_timer_def fire_def
  qrExpire_callback_def countdown_tick_def armed_def Let_def empty_ref_def accepting_env_def
  rejecting_env_def sendVerificationCode_def resend_disabled_def QR_EXPIRE_TIME_def
  phone_code_payload_def

lemma qr_started_eval:
  "next_timer qr_started = 3" "armed QRPoll qr_started = [1]" "armed QRExpire qr_started = [2]"
  "qrCheckInterval (comp qr_started) = Some 1" "qrExpireTimer (comp qr_started) = Some 2"
  "showWechatQR (comp qr_started)"
  by (simp_all add: qr_started_def eval_defs)

lemma qr_started_reachable: "reachable accepting_env qr_started"
  unfolding qr_started_def by (rule reachable_run [OF reachable_init])

lemma send_pending_eval:
  "isSendingCode (comp send_pending)" "pending send_pending = [SendCodeK]"
  "codeCountdown (comp send_pending) = 0"
  "effects send_pending = [CallSendCode ''13800000000'' ForLogin]"
  by (simp_all add: send_pending_def eval_defs)

subsection \<open>The rendered page\<close>

text \<open>Every state of the page is a state of the larger system, and on the page the QR
  flow never starts: the one listener that starts it is rendered only after an expiry
  has fired.\<close>

lemma reachable_page_reachable: "reachable_page E w \<Longrightarrow> reachable E w"
  by (induction rule: reachable_page.induct) (simp_all add: reachable_init reachable_step)


lemma same_qr_quiet: "same_qr w w' \<Longrightarrow> page_quiet w \<Longrightarrow> page_quiet w'"
  by (simp add: same_qr_def page_quiet_def no_qr_armed_def armed_def)

lemma clearQRTimers_null: 
  "qrExpireTimer (comp w) = None \<Longrightarrow> qrCheckInterval (comp w) = None \<Longrightarrow> clearQRTimers w = w"
  by (simp add: clearQRTimers_def)

lemma qr_vars_quiet:
  "no_qr_armed w' \<Longrightarrow> qr_vars (comp w') = qr_vars (comp w) \<Longrightarrow> page_quiet w \<Longrightarrow> page_quiet w'"
  by (simp add: page_quiet_def qr_vars_def)

lemma switchMode_quiet:
  assumes q: "page_quiet w" shows "page_quiet (switchMode m w)"
proof -
  let ?w1 = "clearErrors (upd (\<lambda>c. c\<lparr>currentMode := m\<rparr>) w)"
  have "same_qr w ?w1" by (simp add: same_qr_def clearErrors_def)
  from same_qr_quiet [OF this q] have q1: "page_quiet ?w1" .
  then have c: "clearQRTimers ?w1 = ?w1" by (simp add: clearQRTimers_null page_quiet_def)
  from q1 have "page_quiet (upd (\<lambda>c. c\<lparr>showWechatQR := False, qrExpired := False\<rparr>) ?w1)"
    by (simp add: page_quiet_def no_qr_armed_def armed_def)
  with q1 c show ?thesis by (auto simp add: switchMode_def Let_def)
qed

lemma step_quiet_page:
  assumes q: "page_quiet w" and r: "rendered e (comp w)"
  shows "page_quiet (step E e w)"
proof (cases e)
  case (Input f s)
  have "same_qr w (upd (set_field f s) w)" by (simp add: same_qr_def)
  from same_qr_quiet [OF this q] Input show ?thesis by simp
next
  case (ClickTab t)
  have "same_qr w (upd (\<lambda>c. c\<lparr>loginType := t\<rparr>) w)" by (simp add: same_qr_def)
  from same_qr_quiet [OF this q] ClickTab show ?thesis by simp
next
  case (ClickEye y)
  have "same_qr w (upd (toggle_eye y) w)" by (simp add: same_qr_def)
  from same_qr_quiet [OF this q] ClickEye show ?thesis by simp
next
  case (ClickResend p)
  with same_qr_quiet [OF same_qr_sendVerificationCode q] q show ?thesis by simp
next
  case ClickLogin
  with same_qr_quiet [OF same_qr_handlePhoneCodeLogin q] show ?thesis by simp
next
  case ClickRegister
  with same_qr_quiet [OF same_qr_handleRegister q] show ?thesis by simp
next
  case ClickResetPassword
  with same_qr_quiet [OF same_qr_handleForgotPassword q] show ?thesis by simp
next
  case (ClickSwitchMode m)
  with switchMode_quiet [OF q] show ?thesis by simp
next
  case ClickRefreshQR
  with q r show ?thesis by (simp add: page_quiet_def)
next
  case (TimerFires h)
  from q have n: "no_qr_armed w" by (simp add: page_quiet_def)
  from fire_quiet [OF n, of h] q TimerFires show ?thesis
    by (simp add: qr_vars_quiet)
next
  case (Settles k out)
  from q have n: "no_qr_armed w" by (simp add: page_quiet_def)
  from settle_quiet [OF n, of E k out] q Settles show ?thesis
    by (simp add: qr_vars_quiet)
next
  case (Mounted redirect)
  with same_qr_quiet [OF same_qr_onMounted q] show ?thesis by simp
next
  case BeforeUnmount
  with q show ?thesis by (simp add: onBeforeUnmount_def clearQRTimers_null page_quiet_def)
qed

lemma init_quiet: "page_quiet init"
  by (simp add: page_quiet_def no_qr_armed_def armed_def init_def init_component_def)

lemma reachable_page_quiet: "reachable_page E w \<Longrightarrow> page_quiet w"
  by (induction rule: reachable_page.induct) (simp_all add: init_quiet step_quiet_page)



text \<open>
  In the larger system, where \<open>refreshQRCode\<close> can run in any state, the expiry
  callback leaves \<open>qrExpireTimer\<close> holding the handle of the timeout that has fired
  (line 283 nulls \<open>qrCheckInterval\<close> only). That state is not one of the page.
\<close>

lemma stale_handle_not_on_page:
  "reachable accepting_env qr_expired_world
   \<and> qrExpireTimer (comp qr_expired_world) = Some 2
   \<and> armed QRExpire qr_expired_world = []
   \<and> \<not> reachable_page E qr_expired_world"
proof -
  have r: "reachable accepting_env qr_expired_world"
    unfolding qr_expired_world_def by (rule reachable_run [OF reachable_init])
  have e: "qrExpireTimer (comp qr_expired_world) = Some 2" "armed QRExpire qr_expired_world = []"
    by (simp_all add: qr_expired_world_def eval_defs)
  have "\<not> reachable_page E qr_expired_world"
    using reachable_page_quiet [of E qr_expired_world] e by (auto simp add: page_quiet_def)
  with r e show ?thesis by simp
qed


section \<open>Properties\<close>

subsection \<open>Form submission\<close>

text \<open>
  C1. A submit handler whose validator returns \<open>isValid = false\<close> is claimed to merge
  the returned messages into the form's error map and to return without calling the
  auth store. Evaluated on the empty login form with a validator that rejects it with a
  message for \<open>phone\<close>: the handler returns after the validator call, nothing is awaited,
  the loading flag stays off and no auth store method is called; but the message is
  written to the ref wrapper as a property of its own, the record behind \<open>value\<close> stays
  empty, and the template, which reads that record, shows no message for \<open>phone\<close>.
\<close>

theorem invalid_login_errors_miss_the_record:
  "effects invalid_login
     = [CallValidateLogin \<lparr>lp_email = None, lp_phone = Some [], lp_password = None,
          lp_code = Some [], lp_type = PhoneType\<rparr>]
   \<and> filter is_network_call (effects invalid_login) = []
   \<and> pending invalid_login = [] \<and> \<not> isLoading (comp invalid_login)
   \<and> own_props (loginErrors (comp invalid_login)) ''phone'' = Some ''phone is required''
   \<and> ref_value (loginErrors (comp invalid_login)) = Rec Map.empty
   \<and> shown_error (loginErrors (comp invalid_login)) ''phone'' = None"
  by (simp add: invalid_login_def handlePhoneCodeLogin_def Object_assign_def assign_prop_def
        shown_error_def eval_defs)

subsection \<open>The QR timers\<close>

text \<open>
  C2. Every start of the QR flow clears the stored timers before it arms new ones, and no
  two polls or two expiry timeouts are ever armed together. The flow is started by
  \<open>refreshQRCode\<close>, the only caller of \<open>handleWechatLogin\<close>. In every reachable state at
  most one poll and at most one expiry are armed; the \<open>clearQRTimers\<close> with which
  \<open>refreshQRCode\<close> begins leaves none armed and both handles null; and after
  \<open>refreshQRCode\<close> exactly the two new timers are armed, their handles stored.
\<close>

theorem refresh_clears_then_arms:
  assumes "reachable E w"
  shows "armed QRPoll (clearQRTimers w) = [] \<and> armed QRExpire (clearQRTimers w) = []
    \<and> qrCheckInterval (comp (clearQRTimers w)) = None
    \<and> qrExpireTimer (comp (clearQRTimers w)) = None
    \<and> timers (refreshQRCode w)
        = timers (clearQRTimers w)
          @ [\<lparr>tid = next_timer w, api = Interval, callback = QRPoll, delay = 2000\<rparr>,
             \<lparr>tid = Suc (next_timer w), api = Timeout, callback = QRExpire,
              delay = QR_EXPIRE_TIME\<rparr>]
    \<and> armed QRPoll (refreshQRCode w) = [next_timer w]
    \<and> armed QRExpire (refreshQRCode w) = [Suc (next_timer w)]
    \<and> qrCheckInterval (comp (refreshQRCode w)) = Some (next_timer w)
    \<and> qrExpireTimer (comp (refreshQRCode w)) = Some (Suc (next_timer w))
    \<and> length (armed QRPoll w) \<le> 1 \<and> length (armed QRExpire w) \<le> 1"
proof -
  have d: "timers (refreshQRCode w)
        = timers (clearQRTimers w)
          @ [\<lparr>tid = next_timer w, api = Interval, callback = QRPoll, delay = 2000\<rparr>,
             \<lparr>tid = Suc (next_timer w), api = Timeout, callback = QRExpire,
              delay = QR_EXPIRE_TIME\<rparr>]"
    by (simp add: refreshQRCode_def)
  note inv = reachable_inv [OF assms]
  have a: "length (armed QRPoll w) \<le> 1"
    by (simp add: armed_poll [OF inv] split: option.split)
  have b: "length (armed QRExpire w) \<le> 1"
    using armed_expire [OF inv] by auto
  have c: "armed QRPoll (refreshQRCode w) = [next_timer w]"
    "armed QRExpire (refreshQRCode w) = [Suc (next_timer w)]"
    by (simp_all add: armed_def refreshQRCode_simps [OF inv])
  show ?thesis
    using a b c d no_qr_timers_after_clear [OF inv] refreshQRCode_simps(3,4) [OF inv]
    by (simp add: clearQRTimers_comp [OF inv])
qed

theorem refresh_clears_then_arms_witness:
  "reachable accepting_env qr_started
   \<and> armed QRPoll qr_started = [1] \<and> armed QRExpire qr_started = [2]
   \<and> armed QRPoll (clearQRTimers qr_started) = []
   \<and> armed QRExpire (clearQRTimers qr_started) = []
   \<and> armed QRPoll (refreshQRCode qr_started) = [3]
   \<and> armed QRExpire (refreshQRCode qr_started) = [4]
   \<and> qrCheckInterval (comp (refreshQRCode qr_started)) = Some 3
   \<and> qrExpireTimer (comp (refreshQRCode qr_started)) = Some 4"
  using refresh_clears_then_arms [OF qr_started_reachable] qr_started_reachable
  by (simp add: qr_started_eval)



subsection \<open>Exceptions of awaited calls\<close>

text \<open>
  Against C4 as stated: the login button is clicked, the form is valid and the auth
  store's \<open>login\<close> rejects. The handler sets the loading flag back and the exception
  leaves it; the log holds the validator call, the login call and the record that the
  exception left the handler, and neither a console entry nor a toast.
\<close>

theorem login_rejection_leaves_the_handler:
  "fst (handlePhoneCodeLogin_resume (Rejected ''network error'')
          (step accepting_env ClickLogin init)) = Threw ''network error''
   \<and> effects login_rejected
     = [CallValidateLogin \<lparr>lp_email = None, lp_phone = Some [], lp_password = None,
          lp_code = Some [], lp_type = PhoneType\<rparr>,
        CallLogin \<lparr>lp_email = None, lp_phone = Some [], lp_password = None,
          lp_code = Some [], lp_type = PhoneType\<rparr>,
        HandlerThrew ''network error'']
   \<and> \<not> isLoading (comp login_rejected)"
  by (simp add: login_rejected_def handlePhoneCodeLogin_def handlePhoneCodeLogin_resume_def
        settle_def eval_defs)

text \<open>
  C4, as amended. When the awaited send-code call throws, \<open>sendVerificationCode\<close>
  catches the exception, logs it, shows the generic toast, sets \<open>isSendingCode\<close> back
  and returns. When the awaited auth store call throws, \<open>handleLogin\<close>,
  \<open>handlePhoneCodeLogin\<close>, \<open>handleRegister\<close> and \<open>handleForgotPassword\<close> set
  \<open>isLoading\<close> back, log nothing, show nothing, and the exception leaves the handler.
  \<open>handleWechatLogin\<close> awaits nothing; its \<open>catch\<close> block, were it entered, logs the
  exception and shows the generic toast.
\<close>

theorem rejections_caught_or_passed_on:
  "fst (sendVerificationCode_resume E (Rejected e) w) = Returned
   \<and> effects (snd (sendVerificationCode_resume E (Rejected e) w))
       = effects w @ [ConsoleError ''Send code error:'' e, Toast ToastError SendCodeFailed]
   \<and> \<not> isSendingCode (comp (snd (sendVerificationCode_resume E (Rejected e) w)))
   \<and> handleLogin_resume (Rejected e) w = (Threw e, upd (\<lambda>c. c\<lparr>isLoading := False\<rparr>) w)
   \<and> handlePhoneCodeLogin_resume (Rejected e) w
       = (Threw e, upd (\<lambda>c. c\<lparr>isLoading := False\<rparr>) w)
   \<and> handleRegister_resume (Rejected e) w = (Threw e, upd (\<lambda>c. c\<lparr>isLoading := False\<rparr>) w)
   \<and> handleForgotPassword_resume (Rejected e) w
       = (Threw e, upd (\<lambda>c. c\<lparr>isLoading := False\<rparr>) w)
   \<and> effects (upd (\<lambda>c. c\<lparr>isLoading := False\<rparr>) w) = effects w
   \<and> \<not> isLoading (comp (upd (\<lambda>c. c\<lparr>isLoading := False\<rparr>) w))
   \<and> effects (handleWechatLogin_catch e w)
       = effects w @ [ConsoleError ''Wechat login error:'' e, Toast ToastError WechatLoginFailed]"
  by (simp add: sendVerificationCode_resume_def handleLogin_resume_def
        handlePhoneCodeLogin_resume_def handleRegister_resume_def
        handleForgotPassword_resume_def handleWechatLogin_catch_def)

subsection \<open>Expiry, unmount and mode switch\<close>

text \<open>
  C5. The expiry timeout is armed with the fixed delay \<open>QR_EXPIRE_TIME\<close>, five minutes.
  When it fires in a reachable state it sets the expired flag, resets the scanned flag,
  disarms the poll and nulls \<open>qrCheckInterval\<close>, and shows its toast; no poll is armed
  afterwards, so no poll tick follows.
\<close>

theorem expiry_stops_the_poll:
  assumes "reachable E w" and "t \<in> set (timers w)" and "callback t = QRExpire"
  shows "api t = Timeout \<and> delay t = QR_EXPIRE_TIME \<and> QR_EXPIRE_TIME = 300000
    \<and> qrExpired (comp (fire (tid t) w)) \<and> \<not> qrScanned (comp (fire (tid t) w))
    \<and> qrCheckInterval (comp (fire (tid t) w)) = None
    \<and> armed QRPoll (fire (tid t) w) = [] \<and> armed QRExpire (fire (tid t) w) = []
    \<and> effects (fire (tid t) w) = effects w @ [Toast ToastInfo QRExpiredRefresh]"
proof -
  note inv = reachable_inv [OF assms(1)]
  note f = find_distinct [OF inv_distinct [OF inv] assms(2)]
  note r = fire_expire [OF inv f assms(3)]
  from inv_expire [OF inv assms(2,3)] show ?thesis
    by (simp add: r armed_def QR_EXPIRE_TIME_def)
qed

theorem expiry_stops_the_poll_witness:
  "reachable accepting_env qr_started
   \<and> \<lparr>tid = 2, api = Timeout, callback = QRExpire, delay = 300000\<rparr> \<in> set (timers qr_started)
   \<and> armed QRPoll qr_started = [1]
   \<and> qrExpired (comp (fire 2 qr_started)) \<and> \<not> qrScanned (comp (fire 2 qr_started))
   \<and> qrCheckInterval (comp (fire 2 qr_started)) = None
   \<and> armed QRPoll (fire 2 qr_started) = []"
proof -
  have m: "\<lparr>tid = 2, api = Timeout, callback = QRExpire, delay = 300000\<rparr>
             \<in> set (timers qr_started)"
    by (simp add: qr_started_def eval_defs)
  from expiry_stops_the_poll [OF qr_started_reachable m] qr_started_reachable m
  show ?thesis
    by (simp add: qr_started_eval)
qed

text \<open>
  C6. When the component is unmounted in a reachable state, the hook nulls both handles
  and leaves no poll and no expiry armed. Whatever timers fire and awaited calls settle
  afterwards, none is armed again, and the variables of the QR panel keep the values the
  hook left: no QR timer callback changes the component after teardown.
\<close>

theorem unmount_disarms_qr_timers:
  assumes "reachable E w" and "list_all after_teardown es"
  shows "qrExpireTimer (comp (onBeforeUnmount w)) = None
    \<and> qrCheckInterval (comp (onBeforeUnmount w)) = None
    \<and> armed QRPoll (onBeforeUnmount w) = [] \<and> armed QRExpire (onBeforeUnmount w) = []
    \<and> armed QRPoll (run E es (onBeforeUnmount w)) = []
    \<and> armed QRExpire (run E es (onBeforeUnmount w)) = []
    \<and> qr_vars (comp (run E es (onBeforeUnmount w))) = qr_vars (comp (onBeforeUnmount w))"
proof -
  note inv = reachable_inv [OF assms(1)]
  have q: "no_qr_armed (onBeforeUnmount w)"
    by (simp add: no_qr_armed_def onBeforeUnmount_def no_qr_timers_after_clear [OF inv])
  from run_quiet [OF q assms(2), of E] q show ?thesis
    by (simp add: no_qr_armed_def) (simp add: onBeforeUnmount_def clearQRTimers_comp [OF inv])
qed

theorem unmount_disarms_qr_timers_witness:
  "reachable accepting_env qr_started
   \<and> armed QRPoll qr_started = [1] \<and> armed QRExpire qr_started = [2]
   \<and> qrExpireTimer (comp (onBeforeUnmount qr_started)) = None
   \<and> qrCheckInterval (comp (onBeforeUnmount qr_started)) = None
   \<and> armed QRPoll (onBeforeUnmount qr_started) = []
   \<and> armed QRExpire (onBeforeUnmount qr_started) = []
   \<and> qr_vars (comp (run accepting_env [TimerFires 1, TimerFires 2] (onBeforeUnmount qr_started)))
       = qr_vars (comp (onBeforeUnmount qr_started))"
proof -
  have l: "list_all after_teardown [TimerFires 1, TimerFires 2]" by simp
  from unmount_disarms_qr_timers [OF qr_started_reachable l] qr_started_reachable
  show ?thesis
    by (simp add: qr_started_eval)
qed

text \<open>
  C7. \<open>switchMode\<close> to register or forgot, from a reachable state in which the QR panel
  is showing, hides the panel, resets the expired flag, nulls both handles and leaves no
  poll and no expiry armed.
\<close>

theorem switchMode_hides_qr_panel:
  assumes "reachable E w" and "showWechatQR (comp w)" and "m = Register \<or> m = Forgot"
  shows "currentMode (comp (switchMode m w)) = m
    \<and> \<not> showWechatQR (comp (switchMode m w)) \<and> \<not> qrExpired (comp (switchMode m w))
    \<and> qrExpireTimer (comp (switchMode m w)) = None
    \<and> qrCheckInterval (comp (switchMode m w)) = None
    \<and> armed QRPoll (switchMode m w) = [] \<and> armed QRExpire (switchMode m w) = []"
proof -
  let ?w1 = "clearErrors (upd (\<lambda>c. c\<lparr>currentMode := m\<rparr>) w)"
  have "same_qr w ?w1" by (simp add: same_qr_def clearErrors_def)
  from same_qr_inv [OF this reachable_inv [OF assms(1)]] have i1: "timers_inv ?w1" .
  have s: "showWechatQR (comp ?w1)" using assms(2) by (simp add: clearErrors_def)
  have e: "switchMode m w
      = upd (\<lambda>c. c\<lparr>showWechatQR := False, qrExpired := False\<rparr>) (clearQRTimers ?w1)"
    using assms(3) s by (auto simp add: switchMode_def Let_def)
  have cm: "currentMode (comp ?w1) = m" by (simp add: clearErrors_def)
  show ?thesis
    unfolding e using no_qr_timers_after_clear [OF i1] cm
    by (simp add: clearQRTimers_comp [OF i1] armed_def)
qed

theorem switchMode_hides_qr_panel_witness:
  "reachable accepting_env qr_started \<and> showWechatQR (comp qr_started)
   \<and> armed QRPoll qr_started = [1] \<and> armed QRExpire qr_started = [2]
   \<and> currentMode (comp (switchMode Register qr_started)) = Register
   \<and> \<not> showWechatQR (comp (switchMode Register qr_started))
   \<and> \<not> qrExpired (comp (switchMode Register qr_started))
   \<and> qrExpireTimer (comp (switchMode Register qr_started)) = None
   \<and> qrCheckInterval (comp (switchMode Register qr_started)) = None
   \<and> armed QRPoll (switchMode Register qr_started) = []
   \<and> armed QRExpire (switchMode Register qr_started) = []"
  using switchMode_hides_qr_panel [OF qr_started_reachable, of Register] qr_started_reachable
  by (simp add: qr_started_eval)

subsection \<open>The resend button\<close>

text \<open>
  C8. In every reachable state a resend button is disabled exactly when a send-code call
  is in flight or the countdown is above zero, and \<open>isSendingCode\<close> is true exactly when
  a call is in flight. The guard is that binding alone: \<open>sendVerificationCode\<close>, given
  a phone number that is not empty and matches the pattern, calls the API in any state,
  whatever \<open>isSendingCode\<close> and \<open>codeCountdown\<close> are.
\<close>

theorem resend_disabled_iff_busy:
  assumes "reachable E w"
  shows "(resend_disabled (comp w) \<longleftrightarrow> send_in_flight w \<or> 0 < codeCountdown (comp w))
    \<and> (isSendingCode (comp w) \<longleftrightarrow> send_in_flight w)
    \<and> (\<forall>phone ty v. phone \<noteq> [] \<and> phoneRegex_test E phone \<longrightarrow>
          sendVerificationCode E phone ty v
            = await SendCodeK (emit (CallSendCode phone ty)
                (upd (\<lambda>c. c\<lparr>isSendingCode := True\<rparr>) v)))"
  using send_inv_in_flight [OF reachable_send_inv [OF assms]]
  by (simp add: resend_disabled_def sendVerificationCode_def)

theorem resend_disabled_iff_busy_witness:
  "reachable accepting_env send_pending
   \<and> resend_disabled (comp send_pending) \<and> send_in_flight send_pending
   \<and> isSendingCode (comp send_pending)
   \<and> step accepting_env (ClickResend ForLogin) send_pending = send_pending
   \<and> pending (sendVerificationCode accepting_env ''13800000000'' ForLogin send_pending)
       = [SendCodeK, SendCodeK]
   \<and> effects (sendVerificationCode accepting_env ''13800000000'' ForLogin send_pending)
       = [CallSendCode ''13800000000'' ForLogin, CallSendCode ''13800000000'' ForLogin]"
proof -
  have r: "reachable accepting_env send_pending"
    unfolding send_pending_def by (rule reachable_run [OF reachable_init])
  have p: "''13800000000'' \<noteq> [] \<and> phoneRegex_test accepting_env ''13800000000''"
    by (simp add: accepting_env_def)
  from resend_disabled_iff_busy [OF r] p
  have "sendVerificationCode accepting_env ''13800000000'' ForLogin send_pending
      = await SendCodeK (emit (CallSendCode ''13800000000'' ForLogin)
          (upd (\<lambda>c. c\<lparr>isSendingCode := True\<rparr>) send_pending))"
    by blast
  with resend_disabled_iff_busy [OF r] r show ?thesis
    by (simp add: send_pending_eval)
qed

subsection \<open>The initial state\<close>

text \<open>
  C9. Before any event the QR panel is showing with an empty image source, the scanned
  flag is set and the expired flag is not, so the condition of the scan-success overlay
  holds (and the column that holds it is rendered, the mode being login), although no
  QR flow has started: both handles are null and no timer is armed.
\<close>

theorem initial_state_shows_scanned_overlay:
  "showWechatQR (comp init) \<and> wechatQRUrl (comp init) = [] \<and> qrScanned (comp init)
   \<and> \<not> qrExpired (comp init) \<and> scanned_overlay (comp init)
   \<and> qr_column_rendered (comp init)
   \<and> qrExpireTimer (comp init) = None \<and> qrCheckInterval (comp init) = None
   \<and> timers init = [] \<and> pending init = [] \<and> effects init = []"
  by (simp add: init_def init_component_def scanned_overlay_def qr_column_rendered_def)

subsection \<open>Password confirmation\<close>

text \<open>
  C10. When the password and its confirmation differ, \<open>handleRegister\<close> and
  \<open>handleForgotPassword\<close> show the mismatch toast and return: the world after the call
  is the world before it with that one toast added to the log. So no validator and no
  auth store method is called, nothing is awaited, and the error refs, the loading flag
  and every other variable of the component are as they were.
\<close>

theorem password_mismatch_aborts:
  "(rf_password (registerForm (comp w)) \<noteq> rf_confirmPassword (registerForm (comp w)) \<longrightarrow>
      handleRegister E w = w\<lparr>effects := effects w @ [Toast ToastError PasswordMismatch]\<rparr>)
   \<and> (ff_newPassword (forgotForm (comp w)) \<noteq> ff_confirmPassword (forgotForm (comp w)) \<longrightarrow>
      handleForgotPassword E w
        = w\<lparr>effects := effects w @ [Toast ToastError PasswordMismatch]\<rparr>)"
  by (simp add: handleRegister_def handleForgotPassword_def emit_def)

theorem password_mismatch_aborts_witness:
  "rf_password (registerForm (comp mismatched))
     \<noteq> rf_confirmPassword (registerForm (comp mismatched))
   \<and> ff_newPassword (forgotForm (comp mismatched))
     \<noteq> ff_confirmPassword (forgotForm (comp mismatched))
   \<and> handleRegister accepting_env mismatched
       = mismatched\<lparr>effects := effects mismatched @ [Toast ToastError PasswordMismatch]\<rparr>
   \<and> handleForgotPassword accepting_env mismatched
       = mismatched\<lparr>effects := effects mismatched @ [Toast ToastError PasswordMismatch]\<rparr>
   \<and> comp (handleRegister accepting_env mismatched) = comp mismatched
   \<and> effects (handleRegister accepting_env mismatched) = [Toast ToastError PasswordMismatch]"
proof -
  have a: "rf_password (registerForm (comp mismatched))
             \<noteq> rf_confirmPassword (registerForm (comp mismatched))"
    by (simp add: mismatched_def run_def upd_def init_def init_component_def)
  have b: "ff_newPassword (forgotForm (comp mismatched))
             \<noteq> ff_confirmPassword (forgotForm (comp mismatched))"
    by (simp add: mismatched_def run_def upd_def init_def init_component_def)
  have c: "effects mismatched = []"
    by (simp add: mismatched_def run_def upd_def init_def)
  from a b c password_mismatch_aborts [of mismatched accepting_env] show ?thesis by simp
qed

end
